theory Spec2Isabelle
  imports Main "HOL-Library.Word"
begin

unbundle bit_operations_syntax

section \<open>Bytes\<close>

type_synonym byte = "8 word"

section \<open>common/crypto: the increasing AEAD nonce generator\<close>

text \<open>
  \<^verbatim>\<open>type IncreasingAEADNonceGenerator struct { nonce []byte }\<close>.
  The generator owns one byte slice; \<open>Next\<close> mutates it in place and returns it.
  The model passes the generator explicitly and returns the bytes the slice holds when
  \<open>Next\<close> returns.
\<close>

record IncreasingAEADNonceGenerator =
  nonce :: "byte list"

definition NewIncreasingAEADNonceGenerator :: IncreasingAEADNonceGenerator where
  "NewIncreasingAEADNonceGenerator =
     \<lparr>nonce = [0xFF, 0xFF, 0xFF, 0xFF, 0xFF, 0xFF, 0xFF, 0xFF, 0xFF, 0xFF, 0xFF, 0xFF]\<rparr>"

text \<open>
  The loop of \<open>Next\<close>: \<^verbatim>\<open>for i := range g.nonce { g.nonce[i]++; if g.nonce[i] != 0 { break } }\<close>.
  Each byte is incremented with wrap-around; the loop goes on to the next byte only when
  the incremented byte is zero.
\<close>

fun next_loop :: "byte list \<Rightarrow> byte list" where
  "next_loop [] = []"
| "next_loop (b # bs) =
     (let b' = b + 1 in if b' \<noteq> 0 then b' # bs else b' # next_loop bs)"

definition Next_nonce :: "IncreasingAEADNonceGenerator \<Rightarrow> byte list \<times> IncreasingAEADNonceGenerator" where
  "Next_nonce g = (let n' = next_loop (nonce g) in (n', g\<lparr>nonce := n'\<rparr>))"

text \<open>The values returned by \<open>k\<close> successive calls of \<open>Next\<close>, first call first.\<close>

fun Next_calls :: "nat \<Rightarrow> IncreasingAEADNonceGenerator \<Rightarrow> byte list list" where
  "Next_calls 0 g = []"
| "Next_calls (Suc k) g = (case Next_nonce g of (v, g') \<Rightarrow> v # Next_calls k g')"

text \<open>Little-endian reading of a byte string, and the \<open>k\<close>-byte little-endian encoding
  of a number (its \<open>k\<close> low-order bytes).\<close>

fun le_val :: "byte list \<Rightarrow> nat" where
  "le_val [] = 0"
| "le_val (b # bs) = unat b + 256 * le_val bs"

fun le_bytes :: "nat \<Rightarrow> nat \<Rightarrow> byte list" where
  "le_bytes 0 m = []"
| "le_bytes (Suc k) m = of_nat (m mod 256) # le_bytes k (m div 256)"

section \<open>Errors and input streams\<close>

text \<open>
  Go errors as values. \<open>EOF\<close> and \<open>ErrUnexpectedEOF\<close> are the two errors of package
  \<open>io\<close>; \<open>ReadError\<close>, \<open>WriteError\<close> and \<open>CipherError\<close> stand for the errors of the
  underlying connection and of the cipher primitives, which the code passes on unchanged;
  \<open>NewError msg base\<close> is \<^verbatim>\<open>newError(msg).Base(base)\<close>, and
  \<open>InvalidAEADNonceSize n\<close> and \<open>UnknownAddressType t\<close> are the two errors whose
  message carries a value; \<open>SliceBoundsPanic\<close> and \<open>IndexOutOfRangePanic\<close> are the
  run-time panics of a slice expression and of an index out of range, and
  \<open>InvalidSlicePanic\<close> is the panic of \<open>Buffer.Slice\<close>.
\<close>

datatype error =
  EOF
| ErrUnexpectedEOF
| ReadError nat
| WriteError nat
| CipherError nat
| InvalidAEADNonceSize nat
| UnknownAddressType byte
| SliceBoundsPanic
| IndexOutOfRangePanic
| InvalidSlicePanic
| NewError string "error option"

text \<open>
  An \<open>io.Reader\<close>: the bytes it will still deliver, and the error it returns once
  they are used up (\<open>EOF\<close> for a stream that ends cleanly).
\<close>

record io_Reader =
  pending :: "byte list"
  final :: error

text \<open>
  \<open>io.ReadFull(r, buf)\<close> with \<open>len(buf) = k\<close>, which is also
  \<open>buf.ReadFullFrom(r, k)\<close>: exactly \<open>k\<close> bytes, or an error. When the stream ends
  first, the error is the reader's own, except that \<open>EOF\<close> after at least one byte
  becomes \<open>ErrUnexpectedEOF\<close>. Reading zero bytes succeeds on any stream.
\<close>

definition ReadFull :: "io_Reader \<Rightarrow> nat \<Rightarrow> (error + byte list) \<times> io_Reader" where
  "ReadFull r k =
     (if k \<le> length (pending r)
      then (Inr (take k (pending r)), r\<lparr>pending := drop k (pending r)\<rparr>)
      else (Inl (if final r = EOF \<and> pending r \<noteq> [] then ErrUnexpectedEOF else final r),
            r\<lparr>pending := []\<rparr>))"

section \<open>common/crypto: byte generators and the AEAD authenticator\<close>

text \<open>
  \<open>BytesGenerator\<close> is an interface with one method \<open>Next\<close>; its implementations in
  the package are \<open>NoOpBytesGenerator\<close> (an empty slice), \<open>StaticBytesGenerator\<close>
  (its content) and \<open>IncreasingAEADNonceGenerator\<close>.
\<close>

datatype BytesGenerator =
  NoOpBytesGenerator
| StaticBytesGenerator "byte list"
| IncreasingGenerator IncreasingAEADNonceGenerator

fun BytesGenerator_Next :: "BytesGenerator \<Rightarrow> byte list \<times> BytesGenerator" where
  "BytesGenerator_Next NoOpBytesGenerator = ([], NoOpBytesGenerator)"
| "BytesGenerator_Next (StaticBytesGenerator content) = (content, StaticBytesGenerator content)"
| "BytesGenerator_Next (IncreasingGenerator g) =
     (case Next_nonce g of (v, g') \<Rightarrow> (v, IncreasingGenerator g'))"

text \<open>
  \<open>cipher.AEAD\<close> of the Go library is a parameter: its nonce size, its overhead, and
  \<open>Open\<close> and \<open>Seal\<close> as functions of nonce, text and additional data. \<open>Open\<close> fails
  when the text does not authenticate; \<open>Seal\<close> does not fail. Both append their result to
  the \<open>dst\<close> slice they are given.
\<close>

record AEAD =
  aead_NonceSize :: nat
  aead_Overhead :: nat
  aead_Open :: "byte list \<Rightarrow> byte list \<Rightarrow> byte list \<Rightarrow> error + byte list"
  aead_Seal :: "byte list \<Rightarrow> byte list \<Rightarrow> byte list \<Rightarrow> byte list"

record AEADAuthenticator =
  aead :: AEAD
  NonceGenerator :: BytesGenerator
  AdditionalDataGenerator :: "BytesGenerator option"

definition AEADAuthenticator_Open ::
  "AEADAuthenticator \<Rightarrow> byte list \<Rightarrow> (error + byte list) \<times> AEADAuthenticator" where
  "AEADAuthenticator_Open v cipherText =
     (case BytesGenerator_Next (NonceGenerator v) of (iv, g') \<Rightarrow>
        let v1 = v\<lparr>NonceGenerator := g'\<rparr>
        in if length iv \<noteq> aead_NonceSize (aead v) then (Inl (InvalidAEADNonceSize (length iv)), v1)
           else (case AdditionalDataGenerator v1 of
                   None \<Rightarrow> (aead_Open (aead v) iv cipherText [], v1)
                 | Some adg \<Rightarrow>
                     (case BytesGenerator_Next adg of (additionalData, adg') \<Rightarrow>
                        (aead_Open (aead v) iv cipherText additionalData,
                         v1\<lparr>AdditionalDataGenerator := Some adg'\<rparr>))))"

definition AEADAuthenticator_Seal ::
  "AEADAuthenticator \<Rightarrow> byte list \<Rightarrow> (error + byte list) \<times> AEADAuthenticator" where
  "AEADAuthenticator_Seal v plainText =
     (case BytesGenerator_Next (NonceGenerator v) of (iv, g') \<Rightarrow>
        let v1 = v\<lparr>NonceGenerator := g'\<rparr>
        in if length iv \<noteq> aead_NonceSize (aead v) then (Inl (InvalidAEADNonceSize (length iv)), v1)
           else (case AdditionalDataGenerator v1 of
                   None \<Rightarrow> (Inr (aead_Seal (aead v) iv plainText []), v1)
                 | Some adg \<Rightarrow>
                     (case BytesGenerator_Next adg of (additionalData, adg') \<Rightarrow>
                        (Inr (aead_Seal (aead v) iv plainText additionalData),
                         v1\<lparr>AdditionalDataGenerator := Some adg'\<rparr>))))"

text \<open>
  The \<open>Authenticator\<close> interface as the reader and the writer use it: \<open>Overhead\<close>,
  and \<open>Open\<close> and \<open>Seal\<close> acting on the authenticator's own state \<open>'a\<close>. The reader
  and the writer pass the start of their buffer as \<open>dst\<close>, so the result lies at the
  start of that buffer.
\<close>

record 'a Authenticator =
  Overhead :: nat
  Open :: "'a \<Rightarrow> byte list \<Rightarrow> (error + byte list) \<times> 'a"
  Seal :: "'a \<Rightarrow> byte list \<Rightarrow> (error + byte list) \<times> 'a"

definition AEADAuthenticator_interface :: "AEAD \<Rightarrow> AEADAuthenticator Authenticator" where
  "AEADAuthenticator_interface a =
     \<lparr>Overhead = aead_Overhead a, Open = AEADAuthenticator_Open, Seal = AEADAuthenticator_Seal\<rparr>"

section \<open>common/crypto: the authentication reader\<close>

text \<open>
  \<open>ChunkSizeDecoder\<close> and \<open>ChunkSizeEncoder\<close> are interfaces declared outside the
  sources at hand; they are parameters: the number of size bytes and the coding of a
  16-bit size, acting on the parser's own state \<open>'p\<close>.
\<close>

record 'p ChunkSizeDecoder =
  SizeBytes :: nat
  Decode :: "'p \<Rightarrow> byte list \<Rightarrow> (error + 16 word) \<times> 'p"

datatype TransferType = TransferTypeStream | TransferTypePacket

type_synonym MultiBuffer = "byte list list"

record ('a, 'p) AuthenticationReader =
  auth :: "'a Authenticator"
  auth_state :: 'a
  reader :: io_Reader
  sizeParser :: "'p ChunkSizeDecoder"
  parser_state :: 'p
  transferType :: TransferType

definition readSize ::
  "('a, 'p) AuthenticationReader \<Rightarrow> (error + nat) \<times> ('a, 'p) AuthenticationReader" where
  "readSize r =
     (case ReadFull (reader r) (SizeBytes (sizeParser r)) of
        (Inl err, rd) \<Rightarrow> (Inl err, r\<lparr>reader := rd\<rparr>)
      | (Inr sizeBytes, rd) \<Rightarrow>
          (case Decode (sizeParser r) (parser_state r) sizeBytes of
             (Inl err, ps) \<Rightarrow> (Inl err, r\<lparr>reader := rd, parser_state := ps\<rparr>)
           | (Inr sz, ps) \<Rightarrow> (Inr (unat sz), r\<lparr>reader := rd, parser_state := ps\<rparr>)))"

text \<open>
  \<open>ReadMultiBuffer\<close> (\<open>sz\<close> is the source's \<open>size\<close>). The buffer \<open>b\<close> holds the
  \<open>size\<close> bytes read; \<open>Open\<close> is given
  \<open>b.BytesTo(0)\<close> as \<open>dst\<close> and writes the plaintext \<open>rb\<close> at the start of \<open>b\<close>, and
  \<open>b.Slice(0, len(rb))\<close> leaves exactly those bytes in the buffer that is returned.
\<close>

definition ReadMultiBuffer ::
  "('a, 'p) AuthenticationReader \<Rightarrow> (error + MultiBuffer) \<times> ('a, 'p) AuthenticationReader" where
  "ReadMultiBuffer r =
     (case readSize r of
        (Inl err, r1) \<Rightarrow> (Inl err, r1)
      | (Inr sz, r1) \<Rightarrow>
          if sz = Overhead (auth r1) then (Inl EOF, r1)
          else (case ReadFull (reader r1) sz of
                  (Inl err, rd) \<Rightarrow> (Inl err, r1\<lparr>reader := rd\<rparr>)
                | (Inr b, rd) \<Rightarrow>
                    (case Open (auth r1) (auth_state r1) b of
                       (Inl err, st) \<Rightarrow> (Inl err, r1\<lparr>reader := rd, auth_state := st\<rparr>)
                     | (Inr rb, st) \<Rightarrow> (Inr [rb], r1\<lparr>reader := rd, auth_state := st\<rparr>))))"

section \<open>common/crypto: the authentication writer\<close>

record 'p ChunkSizeEncoder =
  enc_SizeBytes :: nat
  Encode :: "'p \<Rightarrow> 16 word \<Rightarrow> byte list \<times> 'p"

text \<open>
  The underlying \<open>buf.Writer\<close> is a parameter: \<open>WriteMultiBuffer\<close> acting on the
  state \<open>'o\<close> of what lies below.
\<close>

record ('a, 'p, 'o) AuthenticationWriter =
  w_auth :: "'a Authenticator"
  w_auth_state :: 'a
  writer :: "'o \<Rightarrow> MultiBuffer \<Rightarrow> error option \<times> 'o"
  writer_state :: 'o
  w_sizeParser :: "'p ChunkSizeEncoder"
  w_parser_state :: 'p
  w_transferType :: TransferType

text \<open>
  \<open>seal\<close>: the new buffer \<open>eb\<close> first takes \<open>SizeBytes()\<close> bytes, into which the
  encoder has written the size \<open>uint16(len(b) + Overhead())\<close>, and then
  \<open>encryptedSize\<close> bytes, into which \<open>Seal\<close> has written. The model is exact when the
  encoder writes \<open>SizeBytes()\<close> bytes and \<open>Seal\<close> writes \<open>encryptedSize\<close> bytes, as the
  two interfaces promise: bytes that they would leave unwritten are not represented.
\<close>

definition seal ::
  "('a, 'p, 'o) AuthenticationWriter \<Rightarrow> byte list
     \<Rightarrow> (error + byte list) \<times> ('a, 'p, 'o) AuthenticationWriter" where
  "seal w b =
     (let encryptedSize = length b + Overhead (w_auth w)
      in case Encode (w_sizeParser w) (w_parser_state w) (of_nat encryptedSize) of
           (sizeBytes, ps) \<Rightarrow>
             (case Seal (w_auth w) (w_auth_state w) b of
                (Inl err, st) \<Rightarrow> (Inl err, w\<lparr>w_auth_state := st, w_parser_state := ps\<rparr>)
              | (Inr sealed, st) \<Rightarrow>
                  (Inr (take (enc_SizeBytes (w_sizeParser w)) sizeBytes @ take encryptedSize sealed),
                   w\<lparr>w_auth_state := st, w_parser_state := ps\<rparr>)))"

text \<open>
  Modelled from the spec: \<open>buf.MultiBuffer\<close> is not among the sources; it is an ordered
  sequence of buffers. \<open>mb.Read(p)\<close> fills \<open>p\<close> from the buffers in order, dropping each
  buffer it has used up and stopping in the first one it cannot use up; \<open>mb.IsEmpty()\<close>
  holds when no buffer holds a byte; \<open>mb.SplitFirst()\<close> takes the first buffer off.
\<close>

fun mb_Read :: "nat \<Rightarrow> MultiBuffer \<Rightarrow> byte list \<times> MultiBuffer" where
  "mb_Read n [] = ([], [])"
| "mb_Read n (b # bs) =
     (if length b \<le> n
      then (case mb_Read (n - length b) bs of (got, rest) \<Rightarrow> (b @ got, rest))
      else (take n b, drop n b # bs))"

definition mb_IsEmpty :: "MultiBuffer \<Rightarrow> bool" where
  "mb_IsEmpty mb = list_all (\<lambda>b. b = []) mb"

text \<open>
  The loop of \<open>writeStream\<close>. It reads up to \<open>payloadSize\<close> bytes, seals them, appends
  the frame, and stops when the input is empty. With \<open>payloadSize = 0\<close> and input left
  the Go loop does not end: the model is a partial function, \<open>None\<close> where it does not
  return.
\<close>

partial_function (option) writeStream_loop ::
  "nat \<Rightarrow> ('a, 'p, 'o) AuthenticationWriter \<Rightarrow> MultiBuffer \<Rightarrow> MultiBuffer
     \<Rightarrow> ((error + MultiBuffer) \<times> ('a, 'p, 'o) AuthenticationWriter) option" where
  "writeStream_loop payloadSize w mb mb2Write =
     (case mb_Read payloadSize mb of
        (b, mb') \<Rightarrow>
          (case seal w b of
             (Inl err, w') \<Rightarrow> Some (Inl err, w')
           | (Inr eb, w') \<Rightarrow>
               if mb_IsEmpty mb' then Some (Inr (mb2Write @ [eb]), w')
               else writeStream_loop payloadSize w' mb' (mb2Write @ [eb])))"

text \<open>
  \<open>writeStream\<close>. \<open>buf.Size\<close> is a constant of package \<open>buf\<close>, not among the sources:
  it is the parameter \<open>bufSize\<close>. The slice \<open>bb[:payloadSize]\<close> panics when
  \<open>payloadSize\<close> is negative.
\<close>

definition writeStream ::
  "nat \<Rightarrow> ('a, 'p, 'o) AuthenticationWriter \<Rightarrow> MultiBuffer
     \<Rightarrow> (error option \<times> ('a, 'p, 'o) AuthenticationWriter) option" where
  "writeStream bufSize w mb =
     (let payloadSize = int bufSize - int (Overhead (w_auth w)) - int (enc_SizeBytes (w_sizeParser w))
      in if payloadSize < 0 then Some (Some SliceBoundsPanic, w)
         else (case writeStream_loop (nat payloadSize) w mb [] of
                 None \<Rightarrow> None
               | Some (Inl err, w') \<Rightarrow> Some (Some err, w')
               | Some (Inr mb2Write, w') \<Rightarrow>
                   (case writer w' (writer_state w') mb2Write of
                      (r, out) \<Rightarrow> Some (r, w'\<lparr>writer_state := out\<rparr>))))"

text \<open>\<open>writePacket\<close>: one frame for each buffer; an empty input gives one empty frame.\<close>

fun writePacket_loop ::
  "('a, 'p, 'o) AuthenticationWriter \<Rightarrow> MultiBuffer \<Rightarrow> MultiBuffer
     \<Rightarrow> (error + MultiBuffer) \<times> ('a, 'p, 'o) AuthenticationWriter" where
  "writePacket_loop w [] mb2Write =
     (case seal w [] of
        (Inl err, w') \<Rightarrow> (Inl err, w')
      | (Inr eb, w') \<Rightarrow> (Inr (mb2Write @ [eb]), w'))"
| "writePacket_loop w (b # mb') mb2Write =
     (case seal w b of
        (Inl err, w') \<Rightarrow> (Inl err, w')
      | (Inr eb, w') \<Rightarrow>
          if mb_IsEmpty mb' then (Inr (mb2Write @ [eb]), w')
          else writePacket_loop w' mb' (mb2Write @ [eb]))"

definition writePacket ::
  "('a, 'p, 'o) AuthenticationWriter \<Rightarrow> MultiBuffer
     \<Rightarrow> error option \<times> ('a, 'p, 'o) AuthenticationWriter" where
  "writePacket w mb =
     (case writePacket_loop w mb [] of
        (Inl err, w') \<Rightarrow> (Some err, w')
      | (Inr mb2Write, w') \<Rightarrow>
          (case writer w' (writer_state w') mb2Write of
             (r, out) \<Rightarrow> (r, w'\<lparr>writer_state := out\<rparr>)))"

definition WriteMultiBuffer ::
  "nat \<Rightarrow> ('a, 'p, 'o) AuthenticationWriter \<Rightarrow> MultiBuffer
     \<Rightarrow> (error option \<times> ('a, 'p, 'o) AuthenticationWriter) option" where
  "WriteMultiBuffer bufSize w mb =
     (if w_transferType w = TransferTypeStream then writeStream bufSize w mb
      else Some (writePacket w mb))"

text \<open>
  The claim's words, to compare \<open>writeStream\<close> with: the payload cut into chunks of
  \<open>n\<close> bytes, the last one possibly shorter (an empty payload is one empty chunk), and
  the chunks sealed one after the other.
\<close>

function chunks :: "nat \<Rightarrow> byte list \<Rightarrow> byte list list" where
  "chunks n xs = (if n = 0 \<or> length xs \<le> n then [xs] else take n xs # chunks n (drop n xs))"
  by pat_completeness auto
termination
  by (relation "measure (\<lambda>(n, xs). length xs)") auto

declare chunks.simps [simp del]

fun seal_chunks ::
  "('a, 'p, 'o) AuthenticationWriter \<Rightarrow> byte list list
     \<Rightarrow> (error + MultiBuffer) \<times> ('a, 'p, 'o) AuthenticationWriter" where
  "seal_chunks w [] = (Inr [], w)"
| "seal_chunks w (c # cs) =
     (case seal w c of
        (Inl err, w') \<Rightarrow> (Inl err, w')
      | (Inr eb, w') \<Rightarrow>
          (case seal_chunks w' cs of
             (Inl err, w'') \<Rightarrow> (Inl err, w'')
           | (Inr ebs, w'') \<Rightarrow> (Inr (eb # ebs), w'')))"

section \<open>app/proxyman/inbound: the handler manager\<close>

text \<open>
  A \<open>core.InboundHandler\<close> is an interface value; the manager only calls \<open>Tag()\<close> on it.
  The model keeps the tag and an identity for the object behind the interface.
\<close>

record InboundHandler =
  Tag :: string
  handler_id :: nat

text \<open>\<^verbatim>\<open>type Manager struct { handlers []core.InboundHandler; taggedHandlers map[string]core.InboundHandler }\<close>\<close>

record Manager =
  handlers :: "InboundHandler list"
  taggedHandlers :: "string \<rightharpoonup> InboundHandler"

datatype inbound_error = HandlerNotFound string

definition New_Manager :: Manager where
  "New_Manager = \<lparr>handlers = [], taggedHandlers = Map.empty\<rparr>"

definition AddHandler :: "Manager \<Rightarrow> InboundHandler \<Rightarrow> inbound_error option \<times> Manager" where
  "AddHandler m handler =
     (let m1 = m\<lparr>handlers := handlers m @ [handler]\<rparr>;
          tag = Tag handler;
          m2 = (if length tag > 0
                then m1\<lparr>taggedHandlers := (taggedHandlers m1)(tag \<mapsto> handler)\<rparr>
                else m1)
      in (None, m2))"

definition GetHandler :: "Manager \<Rightarrow> string \<Rightarrow> inbound_error + InboundHandler" where
  "GetHandler m tag =
     (case taggedHandlers m tag of
        None \<Rightarrow> Inl (HandlerNotFound tag)
      | Some handler \<Rightarrow> Inr handler)"

text \<open>A sequence of \<open>AddHandler\<close> calls: the values returned, in call order, and the
  manager after the last call.\<close>

fun AddHandler_calls :: "Manager \<Rightarrow> InboundHandler list \<Rightarrow> inbound_error option list \<times> Manager" where
  "AddHandler_calls m [] = ([], m)"
| "AddHandler_calls m (h # hs) =
     (case AddHandler m h of (r, m') \<Rightarrow>
        (case AddHandler_calls m' hs of (rs, m'') \<Rightarrow> (r # rs, m'')))"

section \<open>proxy/socks: the effective policy of a server\<close>

text \<open>
  \<open>time.Duration\<close> is a signed 64-bit count of nanoseconds; \<open>time.Second\<close> is
  \<open>10^9\<close>. \<open>ServerConfig.Timeout\<close> and \<open>ServerConfig.UserLevel\<close> are \<open>uint32\<close>.
\<close>

type_synonym Duration = "64 word"

definition Second :: Duration where
  "Second = 1000000000"

text \<open>
  Modelled from the spec: the declaration of \<open>core.Policy\<close> is not among the sources;
  the spec gives it as \<open>Policy{Timeouts{Handshake, ConnectionIdle, UplinkOnly, DownlinkOnly}}\<close>.
\<close>

record Timeouts_t =
  Handshake :: Duration
  ConnectionIdle :: Duration
  UplinkOnly :: Duration
  DownlinkOnly :: Duration

record Policy =
  Timeouts :: Timeouts_t

record ServerConfig =
  UserLevel :: "32 word"
  Timeout :: "32 word"

text \<open>The server reaches the policy manager through its instance; \<open>ForLevel\<close> is the
  manager's lookup, a parameter of the model. A \<open>core.Policy\<close> is a struct value, so
  the assignment in \<open>policy\<close> changes the server's copy only.\<close>

record socks_Server =
  config :: ServerConfig
  ForLevel :: "32 word \<Rightarrow> Policy"

definition policy :: "socks_Server \<Rightarrow> Policy" where
  "policy s =
     (let cfg = config s;
          p = ForLevel s (UserLevel cfg)
      in if Timeout cfg > 0 \<and> UserLevel cfg = 0
         then p\<lparr>Timeouts := (Timeouts p)\<lparr>ConnectionIdle := ucast (Timeout cfg) * Second\<rparr>\<rparr>
         else p)"

section \<open>core: starting an instance\<close>






section \<open>app/proxyman/mux: sessions, client and server\<close>

definition maxTotal :: nat where
  "maxTotal = 128"

text \<open>
  Modelled from the spec: \<open>SessionManager\<close> (\<open>NewSessionManager\<close>, \<open>Size\<close>, \<open>Count\<close>,
  \<open>Allocate\<close>, \<open>Remove\<close> through \<open>Session.Close\<close>, \<open>CloseIfNoSession\<close>, \<open>Close\<close>) is
  not among the sources. The spec: the manager holds the sessions by ID, assigns IDs
  from a monotonically increasing counter starting at 1, a session goes
  \<open>Allocate \<rightarrow> Active \<rightarrow> Closed\<close>, and \<open>CloseIfNoSession\<close> flips an empty manager to a
  drained state in which \<open>Allocate\<close> fails. \<open>sessions\<close> lists the IDs of the live
  sessions (the keys of the session map), \<open>count\<close> is the counter. The reuse of IDs once
  the 16-bit counter is exhausted is left out: it lies beyond \<open>maxTotal\<close> allocations.
\<close>

record SessionManager =
  sessions :: "nat list"
  count :: nat
  closed :: bool

definition NewSessionManager :: SessionManager where
  "NewSessionManager = \<lparr>sessions = [], count = 0, closed = False\<rparr>"

definition Size :: "SessionManager \<Rightarrow> nat" where
  "Size sm = length (sessions sm)"

definition Count :: "SessionManager \<Rightarrow> nat" where
  "Count sm = count sm"

definition Allocate :: "SessionManager \<Rightarrow> nat option \<times> SessionManager" where
  "Allocate sm =
     (if closed sm then (None, sm)
      else let c = count sm + 1
           in (Some c, sm\<lparr>sessions := List.insert c (sessions sm), count := c\<rparr>))"

definition Remove :: "SessionManager \<Rightarrow> nat \<Rightarrow> SessionManager" where
  "Remove sm sid = sm\<lparr>sessions := removeAll sid (sessions sm)\<rparr>"

definition CloseIfNoSession :: "SessionManager \<Rightarrow> bool \<times> SessionManager" where
  "CloseIfNoSession sm =
     (if sessions sm \<noteq> [] then (False, sm) else (True, sm\<lparr>closed := True\<rparr>))"

definition SessionManager_Close :: "SessionManager \<Rightarrow> SessionManager" where
  "SessionManager_Close sm = sm\<lparr>sessions := [], closed := True\<rparr>"

text \<open>
  \<^verbatim>\<open>type Client struct { sessionManager; inboundRay; done *signal.Done; manager; concurrency uint32 }\<close>.
  The model keeps the session manager, the state of the \<open>done\<close> latch and the
  concurrency limit. \<open>NewClient\<close> takes the limit from the manager's configuration.
\<close>

record Client =
  sessionManager :: SessionManager
  done_latch :: bool
  concurrency :: "32 word"

definition NewClient :: "32 word \<Rightarrow> Client" where
  "NewClient c = \<lparr>sessionManager = NewSessionManager, done_latch = False, concurrency = c\<rparr>"

text \<open>
  \<open>Client.Dispatch\<close>: the two gates, then \<open>Allocate\<close>. The result is whether the client
  took the session. Wiring the session to the ray and starting \<open>fetchInput\<close> do not
  touch the session manager, the latch or the limit.
\<close>

definition Client_Dispatch :: "Client \<Rightarrow> bool \<times> Client" where
  "Client_Dispatch m =
     (let sm = sessionManager m
      in if Size sm \<ge> unat (concurrency m) \<or> Count sm \<ge> maxTotal then (False, m)
         else if done_latch m then (False, m)
         else (case Allocate sm of
                 (None, sm') \<Rightarrow> (False, m\<lparr>sessionManager := sm'\<rparr>)
               | (Some s, sm') \<Rightarrow> (True, m\<lparr>sessionManager := sm'\<rparr>)))"

text \<open>
  What can happen to a client, one atomic step each: a \<open>Dispatch\<close> call (they are
  serialised by the client manager's mutex), the close of a session (\<open>Session.Close\<close>
  removes it from its manager), the close of the \<open>done\<close> latch, a tick of \<open>monitor\<close>
  (\<^verbatim>\<open>size == 0 && CloseIfNoSession()\<close> closes the latch), and \<open>monitor\<close> seeing the
  latch closed (it closes the session manager).
\<close>

datatype client_event =
  EvDispatch
| EvSessionClose nat
| EvDoneClose
| EvMonitorTick
| EvMonitorDone

fun client_step :: "Client \<Rightarrow> client_event \<Rightarrow> Client" where
  "client_step m EvDispatch = snd (Client_Dispatch m)"
| "client_step m (EvSessionClose sid) = m\<lparr>sessionManager := Remove (sessionManager m) sid\<rparr>"
| "client_step m EvDoneClose = m\<lparr>done_latch := True\<rparr>"
| "client_step m EvMonitorTick =
     (if Size (sessionManager m) = 0
      then (case CloseIfNoSession (sessionManager m) of
              (True, sm') \<Rightarrow> m\<lparr>sessionManager := sm', done_latch := True\<rparr>
            | (False, sm') \<Rightarrow> m\<lparr>sessionManager := sm'\<rparr>)
      else m)"
| "client_step m EvMonitorDone =
     (if done_latch m then m\<lparr>sessionManager := SessionManager_Close (sessionManager m)\<rparr> else m)"

definition client_run :: "Client \<Rightarrow> client_event list \<Rightarrow> Client" where
  "client_run m evs = foldl client_step m evs"

text \<open>
  Modelled from the spec: the \<open>net\<close> package is not among the sources. An address is
  one of IPv4, IPv6 or domain; a destination is a network, an address and a 16-bit port.
  Go compares two \<open>net.Address\<close> interface values by dynamic type and value.
\<close>

datatype Network = Network_Unknown | Network_TCP | Network_UDP

datatype Address = IPv4Address "byte list" | IPv6Address "byte list" | DomainAddress string

record Destination =
  Network :: Network
  Address :: Address
  Port :: "16 word"

definition muxCoolAddress :: Address where
  "muxCoolAddress = DomainAddress ''v1.mux.cool''"

definition muxCoolPort :: "16 word" where
  "muxCoolPort = 9527"

text \<open>
  \<open>Server.Dispatch\<close> either hands the call to the core dispatcher or makes a fresh ray
  and starts a \<open>ServerWorker\<close> on it. The core dispatcher is a parameter acting on its
  own state \<open>'w\<close>; a ray made by \<open>ray.New\<close> here is \<open>MuxRay k\<close>, the \<open>k\<close>-th made, and a
  ray returned by the core dispatcher is \<open>CoreRay r\<close>. \<open>workers\<close> are the workers
  started so far.
\<close>

datatype 'r InboundRay = MuxRay nat | CoreRay 'r

record 'r ServerWorker =
  outboundRay :: "'r InboundRay"
  worker_sessionManager :: SessionManager

record ('w, 'r) mux_Server =
  core_state :: 'w
  rays_made :: nat
  workers :: "'r ServerWorker list"

definition Server_Dispatch ::
  "(Destination \<Rightarrow> 'w \<Rightarrow> ('e + 'r) \<times> 'w) \<Rightarrow> ('w, 'r) mux_Server \<Rightarrow> Destination
     \<Rightarrow> ('e + 'r InboundRay) \<times> ('w, 'r) mux_Server" where
  "Server_Dispatch dispatcher s dest =
     (if Address dest \<noteq> muxCoolAddress
      then (case dispatcher dest (core_state s) of
              (Inl err, w') \<Rightarrow> (Inl err, s\<lparr>core_state := w'\<rparr>)
            | (Inr r, w') \<Rightarrow> (Inr (CoreRay r), s\<lparr>core_state := w'\<rparr>))
      else let ray = MuxRay (rays_made s);
               worker = \<lparr>outboundRay = ray, worker_sessionManager = NewSessionManager\<rparr>
           in (Inr ray, s\<lparr>rays_made := rays_made s + 1, workers := workers s @ [worker]\<rparr>))"

section \<open>proxy/shadowsocks: the request codec\<close>

definition Version :: byte where
  "Version = 1"

definition RequestOptionOneTimeAuth :: byte where
  "RequestOptionOneTimeAuth = 0x01"

definition AddrTypeIPv4 :: byte where
  "AddrTypeIPv4 = 1"

definition AddrTypeIPv6 :: byte where
  "AddrTypeIPv6 = 4"

definition AddrTypeDomain :: byte where
  "AddrTypeDomain = 3"

text \<open>
  Modelled from the spec: packages \<open>bitmask\<close>, \<open>protocol\<close> and \<open>buf\<close>, the cipher and
  account types and the one-time authenticator of package \<open>shadowsocks\<close> are not among
  the sources. The spec gives \<open>RequestHeader\<close> as \<open>{Version, User, Command, Address, Port,
  Option: bitmask{OneTimeAuth}}\<close> and \<open>MemoryAccount\<close> as \<open>{Cipher, Key, OneTimeAuth \<in>
  {Enabled, Disabled, Auto}}\<close>, the cipher exposing \<open>IVSize\<close>, \<open>IsAEAD\<close>, the
  decryption reader and \<open>DecodePacket\<close>. An option byte has a flag when their bitwise
  AND is not zero, and setting a flag is bitwise OR. The cipher's operations, the MAC
  length \<open>AuthSize\<close> and the header MAC (keyed by account key and IV) are parameters.
\<close>

definition Has :: "byte \<Rightarrow> byte \<Rightarrow> bool" where
  "Has b bb = (b AND bb \<noteq> 0)"

definition Set_flag :: "byte \<Rightarrow> byte \<Rightarrow> byte" where
  "Set_flag b bb = b OR bb"

datatype Account_OneTimeAuth = Account_Auto | Account_Disabled | Account_Enabled

text \<open>
  Modelled from the spec: \<open>buf.Buffer\<close> is not among the sources; the spec gives it as
  a fixed-capacity byte buffer. A buffer is a window \<open>[start, end)\<close> on its byte array
  \<open>v\<close>, whose length is the capacity; the content is \<open>v[start:end]\<close>. The methods index
  and slice the array relative to \<open>start\<close>, a negative position counting from the end
  of the content, and none of them compares a position with \<open>end\<close>: a position past
  the content but within the array reads the bytes that lie there. Only a position
  outside the array makes Go panic, as an index or a slice expression out of range does;
  \<open>Slice\<close> panics when \<open>to < from\<close>.
\<close>

record Buffer =
  buf_v :: "byte list"
  buf_start :: int
  buf_end :: int

definition go_index :: "byte list \<Rightarrow> int \<Rightarrow> error + byte" where
  "go_index v i =
     (if 0 \<le> i \<and> i < int (length v) then Inr (v ! nat i) else Inl IndexOutOfRangePanic)"

definition go_slice :: "byte list \<Rightarrow> int \<Rightarrow> int \<Rightarrow> error + byte list" where
  "go_slice v lo hi =
     (if 0 \<le> lo \<and> lo \<le> hi \<and> hi \<le> int (length v)
      then Inr (take (nat (hi - lo)) (drop (nat lo) v))
      else Inl SliceBoundsPanic)"

definition Buffer_Len :: "Buffer \<Rightarrow> int" where
  "Buffer_Len b = buf_end b - buf_start b"

definition Buffer_Byte :: "Buffer \<Rightarrow> int \<Rightarrow> error + byte" where
  "Buffer_Byte b index = go_index (buf_v b) (buf_start b + index)"

definition Buffer_BytesTo :: "Buffer \<Rightarrow> int \<Rightarrow> error + byte list" where
  "Buffer_BytesTo b to_pos =
     (let to_pos' = (if to_pos < 0 then to_pos + Buffer_Len b else to_pos)
      in go_slice (buf_v b) (buf_start b) (buf_start b + to_pos'))"

definition Buffer_BytesFrom :: "Buffer \<Rightarrow> int \<Rightarrow> error + byte list" where
  "Buffer_BytesFrom b from_pos =
     (let from_pos' = (if from_pos < 0 then from_pos + Buffer_Len b else from_pos)
      in go_slice (buf_v b) (buf_start b + from_pos') (buf_end b))"

definition Buffer_BytesRange :: "Buffer \<Rightarrow> int \<Rightarrow> int \<Rightarrow> error + byte list" where
  "Buffer_BytesRange b from_pos to_pos =
     (let from_pos' = (if from_pos < 0 then from_pos + Buffer_Len b else from_pos);
          to_pos' = (if to_pos < 0 then to_pos + Buffer_Len b else to_pos)
      in go_slice (buf_v b) (buf_start b + from_pos') (buf_start b + to_pos'))"

definition Buffer_Slice :: "Buffer \<Rightarrow> int \<Rightarrow> int \<Rightarrow> error + Buffer" where
  "Buffer_Slice b from_pos to_pos =
     (let from_pos' = (if from_pos < 0 then from_pos + Buffer_Len b else from_pos);
          to_pos' = (if to_pos < 0 then to_pos + Buffer_Len b else to_pos)
      in if to_pos' < from_pos' then Inl InvalidSlicePanic
         else Inr (b\<lparr>buf_start := buf_start b + from_pos', buf_end := buf_start b + to_pos'\<rparr>))"

definition Buffer_SliceFrom :: "Buffer \<Rightarrow> int \<Rightarrow> Buffer" where
  "Buffer_SliceFrom b from_pos =
     (let from_pos' = (if from_pos < 0 then from_pos + Buffer_Len b else from_pos)
      in b\<lparr>buf_start := buf_start b + from_pos'\<rparr>)"

record Cipher =
  IVSize :: nat
  IsAEAD :: bool
  NewDecryptionReader :: "byte list \<Rightarrow> byte list \<Rightarrow> io_Reader \<Rightarrow> error + io_Reader"
  DecodePacket :: "byte list \<Rightarrow> Buffer \<Rightarrow> error + Buffer"

record MemoryAccount =
  Cipher :: Cipher
  Key :: "byte list"
  OneTimeAuth :: Account_OneTimeAuth

record User =
  Email :: string
  Account :: "error + MemoryAccount"

definition GetTypedAccount :: "User \<Rightarrow> error + MemoryAccount" where
  "GetTypedAccount user = Account user"

datatype RequestCommand = RequestCommandTCP | RequestCommandUDP

record RequestHeader =
  req_Version :: byte
  req_User :: User
  req_Command :: RequestCommand
  req_Address :: "Address option"
  req_Port :: "16 word"
  req_Option :: byte

record OneTimeAuth_params =
  AuthSize :: nat
  HeaderAuth :: "byte list \<Rightarrow> byte list \<Rightarrow> byte list \<Rightarrow> byte list"

text \<open>
  In \<open>ReadTCPSession\<close> the buffer is local and every access lies within the bytes
  just read into it, so there the buffer is its content. \<open>buffer.BytesFrom(from)\<close>: the
  bytes from index \<open>from\<close> on, a negative index counting from the end. \<open>net.IPAddress\<close> makes an address of 4 or of 16 bytes and is \<open>nil\<close>
  otherwise; \<open>net.DomainAddress\<close> makes one of any string; \<open>net.PortFromBytes\<close> reads two
  bytes big-endian.
\<close>

definition BytesFrom :: "byte list \<Rightarrow> int \<Rightarrow> byte list" where
  "BytesFrom buffer from =
     (if from < 0 then drop (nat (int (length buffer) + from)) buffer
      else drop (nat from) buffer)"

definition IPAddress :: "byte list \<Rightarrow> Address option" where
  "IPAddress ip =
     (if length ip = 4 then Some (IPv4Address ip)
      else if length ip = 16 then Some (IPv6Address ip)
      else None)"

definition string_of_bytes :: "byte list \<Rightarrow> string" where
  "string_of_bytes bs = map (\<lambda>b. char_of (unat b)) bs"

definition PortFromBytes :: "byte list \<Rightarrow> 16 word" where
  "PortFromBytes b = of_nat (unat (b ! 0) * 256 + unat (b ! 1))"

text \<open>The reader that \<open>ReadTCPSession\<close> returns for the payload: the chunk reader of
  one-time authentication (over the decrypted stream, keyed by the IV), or the decrypted
  stream itself.\<close>

datatype payload_Reader = ChunkReader io_Reader "byte list" | PlainReader io_Reader

text \<open>
  The \<open>switch\<close> on the address type. \<open>buffer\<close> holds the header bytes read so far;
  each read appends to it. The default branch reads nothing and leaves the address
  \<open>nil\<close>.
\<close>

definition read_address ::
  "byte \<Rightarrow> byte list \<Rightarrow> io_Reader \<Rightarrow> error + (Address option \<times> byte list \<times> io_Reader)" where
  "read_address addrType buffer br =
     (if addrType = AddrTypeIPv4 then
        (case ReadFull br 4 of
           (Inl err, br') \<Rightarrow> Inl (NewError ''failed to read IPv4 address'' (Some err))
         | (Inr bs, br') \<Rightarrow>
             Inr (IPAddress (BytesFrom (buffer @ bs) (- 4)), buffer @ bs, br'))
      else if addrType = AddrTypeIPv6 then
        (case ReadFull br 16 of
           (Inl err, br') \<Rightarrow> Inl (NewError ''failed to read IPv6 address'' (Some err))
         | (Inr bs, br') \<Rightarrow>
             Inr (IPAddress (BytesFrom (buffer @ bs) (- 16)), buffer @ bs, br'))
      else if addrType = AddrTypeDomain then
        (case ReadFull br 1 of
           (Inl err, br') \<Rightarrow> Inl (NewError ''failed to read domain lenth.'' (Some err))
         | (Inr lb, br') \<Rightarrow>
             (let domainLength = unat (BytesFrom (buffer @ lb) (- 1) ! 0)
              in case ReadFull br' domainLength of
                   (Inl err, br'') \<Rightarrow> Inl (NewError ''failed to read domain'' (Some err))
                 | (Inr d, br'') \<Rightarrow>
                     Inr (Some (DomainAddress
                            (string_of_bytes (BytesFrom (buffer @ lb @ d) (- int domainLength)))),
                          buffer @ lb @ d, br'')))
      else Inr (None, buffer, br))"

text \<open>
  \<open>ReadTCPSession\<close> from the address switch on: the address, the port, the header MAC
  when the request has the one-time-authentication option, the check of the address,
  and the payload reader.
\<close>

definition read_request ::
  "OneTimeAuth_params \<Rightarrow> MemoryAccount \<Rightarrow> byte list \<Rightarrow> RequestHeader \<Rightarrow> byte list \<Rightarrow> io_Reader
     \<Rightarrow> error + (RequestHeader \<times> payload_Reader)" where
  "read_request ota account iv request buffer br =
     (case read_address (buffer ! 0 AND 0x0F) buffer br of
        Inl err \<Rightarrow> Inl err
      | Inr (address, buffer1, br1) \<Rightarrow>
          (case ReadFull br1 2 of
             (Inl err, br2) \<Rightarrow> Inl (NewError ''failed to read port'' (Some err))
           | (Inr pb, br2) \<Rightarrow>
               (let buffer2 = buffer1 @ pb;
                    request1 = request\<lparr>req_Address := address,
                                       req_Port := PortFromBytes (BytesFrom buffer2 (- 2))\<rparr>
                in case (if Has (req_Option request1) RequestOptionOneTimeAuth
                         then (case ReadFull br2 (AuthSize ota) of
                                 (Inl err, br3) \<Rightarrow> Inl (NewError ''Failed to read OTA'' (Some err))
                               | (Inr mac, br3) \<Rightarrow>
                                   if HeaderAuth ota (Key account) iv buffer2
                                        \<noteq> BytesFrom (buffer2 @ mac) (- int (AuthSize ota))
                                   then Inl (NewError ''invalid OTA'' None)
                                   else Inr br3)
                         else Inr br2) of
                     Inl err \<Rightarrow> Inl err
                   | Inr br3 \<Rightarrow>
                       if req_Address request1 = None
                       then Inl (NewError ''invalid remote address.'' None)
                       else if Has (req_Option request1) RequestOptionOneTimeAuth
                            then Inr (request1, ChunkReader br3 iv)
                            else Inr (request1, PlainReader br3))))"

text \<open>
  \<open>ReadTCPSession\<close>: the account, the IV (read from the raw stream when the cipher has
  one), the decryption reader, the first header byte, and for a cipher that is not AEAD
  the option bit \<open>0x10\<close> of that byte and its check against the account.
\<close>

definition ReadTCPSession ::
  "OneTimeAuth_params \<Rightarrow> User \<Rightarrow> io_Reader \<Rightarrow> error + (RequestHeader \<times> payload_Reader)" where
  "ReadTCPSession ota user rd =
     (case GetTypedAccount user of
        Inl err \<Rightarrow> Inl (NewError ''failed to parse account'' (Some err))
      | Inr account \<Rightarrow>
          (case (if IVSize (Cipher account) > 0 then ReadFull rd (IVSize (Cipher account))
                 else (Inr [], rd)) of
             (Inl err, rd1) \<Rightarrow> Inl (NewError ''failed to read IV'' (Some err))
           | (Inr iv, rd1) \<Rightarrow>
               (case NewDecryptionReader (Cipher account) (Key account) iv rd1 of
                  Inl err \<Rightarrow> Inl (NewError ''failed to initialize decoding stream'' (Some err))
                | Inr r \<Rightarrow>
                    (case ReadFull r 1 of
                       (Inl err, br) \<Rightarrow> Inl (NewError ''failed to read address type'' (Some err))
                     | (Inr buffer, br) \<Rightarrow>
                         (let request = \<lparr>req_Version = Version, req_User = user,
                                         req_Command = RequestCommandTCP, req_Address = None,
                                         req_Port = 0, req_Option = 0\<rparr>;
                              request1 =
                                (if \<not> IsAEAD (Cipher account) \<and> buffer ! 0 AND 0x10 = 0x10
                                 then request\<lparr>req_Option :=
                                        Set_flag (req_Option request) RequestOptionOneTimeAuth\<rparr>
                                 else request)
                          in if \<not> IsAEAD (Cipher account)
                                \<and> Has (req_Option request1) RequestOptionOneTimeAuth
                                \<and> OneTimeAuth account = Account_Disabled
                             then Inl (NewError
                               ''rejecting connection with OTA enabled, while server disables OTA''
                               None)
                             else if \<not> IsAEAD (Cipher account)
                                \<and> \<not> Has (req_Option request1) RequestOptionOneTimeAuth
                                \<and> OneTimeAuth account = Account_Enabled
                             then Inl (NewError
                               ''rejecting connection with OTA disabled, while server enables OTA''
                               None)
                             else read_request ota account iv request1 buffer br)))))"

text \<open>
  \<open>DecodeUDPPacket\<close> works on the buffer its caller hands it, and \<open>DecodePacket\<close>
  decrypts that buffer in place. The source checks no length: it takes the byte and the
  slices at the positions the packet format gives, whatever the content's length, and
  returns a request whenever the one-time-authentication checks pass and the address
  type is known. The model follows it access by access; a result \<open>Inl\<close> of one of the
  three panics is Go's panic at an access outside the array.

  The \<open>switch\<close> on the address type, after \<open>payload.SliceFrom(1)\<close>.
\<close>

definition decode_address ::
  "byte \<Rightarrow> Buffer \<Rightarrow> error + (Address option \<times> Buffer)" where
  "decode_address addrType payload =
     (if addrType = AddrTypeIPv4 then
        (case Buffer_BytesTo payload 4 of
           Inl p \<Rightarrow> Inl p
         | Inr ip \<Rightarrow> Inr (IPAddress ip, Buffer_SliceFrom payload 4))
      else if addrType = AddrTypeIPv6 then
        (case Buffer_BytesTo payload 16 of
           Inl p \<Rightarrow> Inl p
         | Inr ip \<Rightarrow> Inr (IPAddress ip, Buffer_SliceFrom payload 16))
      else if addrType = AddrTypeDomain then
        (case Buffer_Byte payload 0 of
           Inl p \<Rightarrow> Inl p
         | Inr lb \<Rightarrow>
             (let domainLength = int (unat lb)
              in case Buffer_BytesRange payload 1 (1 + domainLength) of
                   Inl p \<Rightarrow> Inl p
                 | Inr d \<Rightarrow>
                     Inr (Some (DomainAddress (string_of_bytes d)),
                          Buffer_SliceFrom payload (1 + domainLength))))
      else Inl (UnknownAddressType addrType))"

text \<open>\<open>DecodeUDPPacket\<close> from the address type on: the type byte, the address, the
  port, and the rest of the buffer as the payload.\<close>

definition decode_request ::
  "RequestHeader \<Rightarrow> Buffer \<Rightarrow> error + (RequestHeader \<times> Buffer)" where
  "decode_request request payload =
     (case Buffer_Byte payload 0 of
        Inl p \<Rightarrow> Inl p
      | Inr b0 \<Rightarrow>
          (case decode_address (b0 AND 0x0F) (Buffer_SliceFrom payload 1) of
             Inl err \<Rightarrow> Inl err
           | Inr (address, payload1) \<Rightarrow>
               (case Buffer_BytesTo payload1 2 of
                  Inl p \<Rightarrow> Inl p
                | Inr pb \<Rightarrow>
                    Inr (request\<lparr>req_Address := address, req_Port := PortFromBytes pb\<rparr>,
                         Buffer_SliceFrom payload1 2))))"

text \<open>The check of the MAC at the end of a packet that has the one-time-authentication
  option, and the cut of the MAC off the buffer.\<close>

definition verify_ota ::
  "OneTimeAuth_params \<Rightarrow> MemoryAccount \<Rightarrow> byte list \<Rightarrow> Buffer \<Rightarrow> error + Buffer" where
  "verify_ota ota account iv payload =
     (let payloadLen = Buffer_Len payload - int (AuthSize ota)
      in case Buffer_BytesFrom payload payloadLen of
           Inl p \<Rightarrow> Inl p
         | Inr authBytes \<Rightarrow>
             (case Buffer_BytesTo payload payloadLen of
                Inl p \<Rightarrow> Inl p
              | Inr body \<Rightarrow>
                  if HeaderAuth ota (Key account) iv body \<noteq> authBytes
                  then Inl (NewError ''invalid OTA'' None)
                  else Buffer_Slice payload 0 payloadLen))"

definition DecodeUDPPacket ::
  "OneTimeAuth_params \<Rightarrow> User \<Rightarrow> Buffer \<Rightarrow> error + (RequestHeader \<times> Buffer)" where
  "DecodeUDPPacket ota user payload =
     (case GetTypedAccount user of
        Inl err \<Rightarrow> Inl (NewError ''failed to parse account'' (Some err))
      | Inr account \<Rightarrow>
          (case (if \<not> IsAEAD (Cipher account) \<and> IVSize (Cipher account) > 0
                 then Buffer_BytesTo payload (int (IVSize (Cipher account)))
                 else Inr []) of
             Inl p \<Rightarrow> Inl p
           | Inr iv \<Rightarrow>
               (case DecodePacket (Cipher account) (Key account) payload of
                  Inl err \<Rightarrow> Inl (NewError ''failed to decrypt UDP payload'' (Some err))
                | Inr payload1 \<Rightarrow>
                    (let request = \<lparr>req_Version = Version, req_User = user,
                                    req_Command = RequestCommandUDP, req_Address = None,
                                    req_Port = 0, req_Option = 0\<rparr>
                     in if \<not> IsAEAD (Cipher account)
                        then (case Buffer_Byte payload1 0 of
                                Inl p \<Rightarrow> Inl p
                              | Inr b0 \<Rightarrow>
                                  (let request1 =
                                         (if b0 AND 0x10 = 0x10
                                          then request\<lparr>req_Option :=
                                                 req_Option request OR RequestOptionOneTimeAuth\<rparr>
                                          else request)
                                   in if Has (req_Option request1) RequestOptionOneTimeAuth
                                         \<and> OneTimeAuth account = Account_Disabled
                                      then Inl (NewError
                                        ''rejecting packet with OTA enabled, while server disables OTA''
                                        None)
                                      else if \<not> Has (req_Option request1) RequestOptionOneTimeAuth
                                         \<and> OneTimeAuth account = Account_Enabled
                                      then Inl (NewError
                                        ''rejecting packet with OTA disabled, while server enables OTA''
                                        None)
                                      else if Has (req_Option request1) RequestOptionOneTimeAuth
                                      then (case verify_ota ota account iv payload1 of
                                              Inl err \<Rightarrow> Inl err
                                            | Inr payload2 \<Rightarrow> decode_request request1 payload2)
                                      else decode_request request1 payload1))
                        else decode_request request payload1))))"

section \<open>Properties of the nonce generator\<close>

lemma length_next_loop: "length (next_loop bs) = length bs"
  by (induction bs) (simp_all add: Let_def)

lemma unat_byte_lt: "unat (b :: byte) < 256"
  using unsigned_less [of b, where ?'a = nat] by simp

lemma byte_succ: "unat ((b :: byte) + 1) = (unat b + 1) mod 256"
  by (simp add: unat_word_ariths)

lemma byte_zero_iff: "(b :: byte) = 0 \<longleftrightarrow> unat b = 0"
  by (simp add: unsigned_eq_0_iff)

lemma le_val_bound: "le_val bs < 256 ^ length bs"
proof (induction bs)
  case Nil
  show ?case by simp
next
  case (Cons b bs)
  have "unat b < 256" by (rule unat_byte_lt)
  with Cons show ?case by simp
qed

lemma unat_byte_succ: "unat ((b :: byte) + 1) = (if b + 1 = 0 then 0 else unat b + 1)"
proof -
  have lt: "unat b < 256" by (rule unat_byte_lt)
  show ?thesis
  proof (cases "b + 1 = 0")
    case True
    then show ?thesis by simp
  next
    case False
    then have "(unat b + 1) mod 256 \<noteq> 0" by (simp add: byte_zero_iff byte_succ)
    with lt have "unat b + 1 < 256" by (cases "unat b = 255") auto
    then show ?thesis using False by (simp add: byte_succ)
  qed
qed

lemma byte_succ_zero: "(b :: byte) + 1 = 0 \<Longrightarrow> unat b = 255"
proof -
  assume "b + 1 = 0"
  then have "(unat b + 1) mod 256 = 0" using byte_succ [of b] by simp
  moreover have "unat b < 256" by (rule unat_byte_lt)
  ultimately show ?thesis by (cases "unat b = 255") auto
qed

lemma le_val_next_loop: "le_val (next_loop bs) = (le_val bs + 1) mod 256 ^ length bs"
proof (induction bs)
  case Nil
  show ?case by simp
next
  case (Cons b bs)
  show ?case
  proof (cases "b + 1 = 0")
    case True
    then have b: "unat b = 255" by (rule byte_succ_zero)
    have "le_val (next_loop (b # bs)) = 256 * ((le_val bs + 1) mod 256 ^ length bs)"
      using True Cons by (simp add: Let_def)
    also have "\<dots> = (256 * (le_val bs + 1)) mod (256 * 256 ^ length bs)"
      by (simp add: mult_mod_right)
    finally show ?thesis using b by (simp add: algebra_simps)
  next
    case False
    have s: "unat (b + 1) = unat b + 1" using False by (simp add: unat_byte_succ)
    have "le_val ((b + 1) # bs) < 256 ^ length ((b + 1) # bs)" by (rule le_val_bound)
    then have "unat b + 1 + 256 * le_val bs < 256 * 256 ^ length bs"
      by (simp add: s)
    then show ?thesis using False s by (simp add: Let_def)
  qed
qed

lemma le_bytes_le_val: "le_bytes (length bs) (le_val bs) = bs"
proof (induction bs)
  case Nil
  show ?case by simp
next
  case (Cons b bs)
  have "unat b < 256" by (rule unat_byte_lt)
  then show ?case using Cons by simp
qed

lemma le_bytes_mod: "le_bytes k (m mod 256 ^ k) = le_bytes k m"
proof (induction k arbitrary: m)
  case 0
  show ?case by simp
next
  case (Suc k)
  have a: "m mod (256 * 256 ^ k) mod 256 = m mod 256"
    by (simp add: mod_mod_cancel)
  have b: "m mod (256 * 256 ^ k) div 256 = (m div 256) mod 256 ^ k"
    by (simp add: mod_mult2_eq)
  show ?case using Suc [of "m div 256"] by (simp add: a b)
qed

lemma next_loop_le_bytes:
  "next_loop bs = le_bytes (length bs) (le_val bs + 1)"
proof -
  have "next_loop bs = le_bytes (length (next_loop bs)) (le_val (next_loop bs))"
    by (simp only: le_bytes_le_val)
  also have "\<dots> = le_bytes (length bs) ((le_val bs + 1) mod 256 ^ length bs)"
    by (simp only: length_next_loop le_val_next_loop)
  finally show ?thesis by (simp only: le_bytes_mod)
qed

lemma Next_calls_nth:
  "i < k \<Longrightarrow> Next_calls k g ! i = le_bytes (length (nonce g)) (le_val (nonce g) + i + 1)"
proof (induction k arbitrary: g i)
  case 0
  then show ?case by simp
next
  case (Suc k)
  let ?n = "length (nonce g)"
  show ?case
  proof (cases i)
    case 0
    then show ?thesis by (simp add: Next_nonce_def Let_def next_loop_le_bytes)
  next
    case (Suc j)
    with Suc.prems have j: "j < k" by simp
    let ?g' = "g\<lparr>nonce := next_loop (nonce g)\<rparr>"
    have "Next_calls (Suc k) g ! i = Next_calls k ?g' ! j"
      using Suc by (simp add: Next_nonce_def Let_def)
    also have "\<dots> = le_bytes ?n (le_val (next_loop (nonce g)) + j + 1)"
      using Suc.IH [OF j, of ?g'] by (simp add: length_next_loop)
    also have "\<dots> = le_bytes ?n ((le_val (next_loop (nonce g)) + j + 1) mod 256 ^ ?n)"
      by (simp only: le_bytes_mod)
    also have "(le_val (next_loop (nonce g)) + j + 1) mod 256 ^ ?n
               = (le_val (nonce g) + 1 + j + 1) mod 256 ^ ?n"
      unfolding le_val_next_loop by (metis add.assoc mod_add_left_eq)
    also have "le_bytes ?n ((le_val (nonce g) + 1 + j + 1) mod 256 ^ ?n)
               = le_bytes ?n (le_val (nonce g) + i + 1)"
      using Suc by (simp only: le_bytes_mod) simp
    finally show ?thesis .
  qed
qed

lemma seed_le_val: "le_val (nonce NewIncreasingAEADNonceGenerator) = 256 ^ 12 - 1"
  by (simp add: NewIncreasingAEADNonceGenerator_def)

lemma seed_length: "length (nonce NewIncreasingAEADNonceGenerator) = 12"
  by (simp add: NewIncreasingAEADNonceGenerator_def)

text \<open>
  Claim C1. For the default generator, seeded with twelve bytes \<open>0xFF\<close>, the \<open>n\<close>-th
  call of \<open>Next\<close> (\<open>n \<ge> 1\<close>) returns the 12-byte little-endian encoding of \<open>n - 1\<close>
  (its twelve low-order bytes); the first call returns twelve zero bytes, the second
  \<open>0x01\<close> followed by eleven zero bytes; and every call returns the generator's previous
  value incremented by one, little-endian.
\<close>

theorem Next_nth_call:
  assumes "1 \<le> n" and "n \<le> k"
  shows "Next_calls k NewIncreasingAEADNonceGenerator ! (n - 1) = le_bytes 12 (n - 1)
       \<and> Next_calls 2 NewIncreasingAEADNonceGenerator
           = [[0, 0, 0, 0, 0, 0, 0, 0, 0, 0, 0, 0], [1, 0, 0, 0, 0, 0, 0, 0, 0, 0, 0, 0]]
       \<and> fst (Next_nonce g) = le_bytes (length (nonce g)) (le_val (nonce g) + 1)
       \<and> nonce (snd (Next_nonce g)) = fst (Next_nonce g)"
proof -
  from assms have i: "n - 1 < k" by simp
  have "Next_calls k NewIncreasingAEADNonceGenerator ! (n - 1)
        = le_bytes 12 (256 ^ 12 - 1 + (n - 1) + 1)"
    using Next_calls_nth [OF i, of NewIncreasingAEADNonceGenerator]
    by (simp only: seed_le_val seed_length)
  also have "\<dots> = le_bytes 12 ((256 ^ 12 - 1 + (n - 1) + 1) mod 256 ^ 12)"
    by (simp only: le_bytes_mod)
  also have "(256 ^ 12 - 1 + (n - 1) + 1) mod 256 ^ 12 = (n - 1) mod (256 ^ 12 :: nat)"
    by simp
  also have "le_bytes 12 ((n - 1) mod 256 ^ 12) = le_bytes 12 (n - 1)"
    by (simp only: le_bytes_mod)
  finally have a: "Next_calls k NewIncreasingAEADNonceGenerator ! (n - 1) = le_bytes 12 (n - 1)" .
  have b: "Next_calls 2 NewIncreasingAEADNonceGenerator
           = [[0, 0, 0, 0, 0, 0, 0, 0, 0, 0, 0, 0], [1, 0, 0, 0, 0, 0, 0, 0, 0, 0, 0, 0]]"
    by code_simp
  have c: "fst (Next_nonce g) = le_bytes (length (nonce g)) (le_val (nonce g) + 1)"
    by (simp add: Next_nonce_def Let_def next_loop_le_bytes)
  have d: "nonce (snd (Next_nonce g)) = fst (Next_nonce g)"
    by (simp add: Next_nonce_def Let_def)
  from a b c d show ?thesis by simp
qed

theorem Next_nth_call_witness:
  "(1::nat) \<le> 3 \<and> (3::nat) \<le> 5
   \<and> Next_calls 5 NewIncreasingAEADNonceGenerator ! (3 - 1)
       = [2, 0, 0, 0, 0, 0, 0, 0, 0, 0, 0, 0]"
proof -
  have h1: "(1::nat) \<le> 3" and h2: "(3::nat) \<le> 5" by simp_all
  have e: "le_bytes 12 (3 - 1) = [2, 0, 0, 0, 0, 0, 0, 0, 0, 0, 0, 0]"
    by code_simp
  from Next_nth_call [OF h1 h2] e show ?thesis by simp
qed

section \<open>Properties of the authentication reader\<close>

lemma ReadFull_short:
  "length (pending rd) < k \<Longrightarrow>
   fst (ReadFull rd k) = Inl (if final rd = EOF \<and> pending rd \<noteq> [] then ErrUnexpectedEOF else final rd)"
  by (simp add: ReadFull_def)

lemma ReadFull_exact:
  "pending rd = xs @ rest \<Longrightarrow> length xs = k \<Longrightarrow>
   ReadFull rd k = (Inr xs, rd\<lparr>pending := rest\<rparr>)"
  by (simp add: ReadFull_def)

lemma readSize_short:
  "length (pending (reader r)) < SizeBytes (sizeParser r) \<Longrightarrow>
   fst (readSize r)
     = Inl (if final (reader r) = EOF \<and> pending (reader r) \<noteq> [] then ErrUnexpectedEOF
            else final (reader r))"
  by (simp add: readSize_def ReadFull_def)

lemma readSize_decoded:
  assumes "pending (reader r) = sizeBytes @ rest"
    and "length sizeBytes = SizeBytes (sizeParser r)"
  shows "readSize r =
     (case Decode (sizeParser r) (parser_state r) sizeBytes of
        (Inl err, ps) \<Rightarrow> (Inl err, r\<lparr>reader := (reader r)\<lparr>pending := rest\<rparr>, parser_state := ps\<rparr>)
      | (Inr sz, ps) \<Rightarrow>
          (Inr (unat sz), r\<lparr>reader := (reader r)\<lparr>pending := rest\<rparr>, parser_state := ps\<rparr>))"
  using ReadFull_exact [OF assms] by (simp add: readSize_def)

lemma ReadMultiBuffer_short_size:
  "length (pending (reader r)) < SizeBytes (sizeParser r) \<Longrightarrow>
   fst (ReadMultiBuffer r)
     = Inl (if final (reader r) = EOF \<and> pending (reader r) \<noteq> [] then ErrUnexpectedEOF
            else final (reader r))"
  using readSize_short [of r]
  by (cases "readSize r") (auto simp add: ReadMultiBuffer_def split: sum.splits)

lemma ReadMultiBuffer_decode_error:
  assumes "pending (reader r) = sizeBytes @ rest"
    and "length sizeBytes = SizeBytes (sizeParser r)"
    and "Decode (sizeParser r) (parser_state r) sizeBytes = (Inl err, ps)"
  shows "fst (ReadMultiBuffer r) = Inl err"
  using readSize_decoded [OF assms(1,2)] assms(3) by (simp add: ReadMultiBuffer_def)

lemma ReadMultiBuffer_eof:
  assumes "pending (reader r) = sizeBytes @ rest"
    and "length sizeBytes = SizeBytes (sizeParser r)"
    and "Decode (sizeParser r) (parser_state r) sizeBytes = (Inr sz, ps)"
    and "unat sz = Overhead (auth r)"
  shows "ReadMultiBuffer r
     = (Inl EOF, r\<lparr>reader := (reader r)\<lparr>pending := rest\<rparr>, parser_state := ps\<rparr>)"
  using readSize_decoded [OF assms(1,2)] assms(3,4) by (simp add: ReadMultiBuffer_def)

lemma ReadMultiBuffer_short_body:
  assumes "pending (reader r) = sizeBytes @ rest"
    and "length sizeBytes = SizeBytes (sizeParser r)"
    and "Decode (sizeParser r) (parser_state r) sizeBytes = (Inr sz, ps)"
    and "unat sz \<noteq> Overhead (auth r)"
    and "length rest < unat sz"
  shows "fst (ReadMultiBuffer r)
     = Inl (if final (reader r) = EOF \<and> rest \<noteq> [] then ErrUnexpectedEOF else final (reader r))"
  using readSize_decoded [OF assms(1,2)] assms(3,4,5)
  by (simp add: ReadMultiBuffer_def ReadFull_def)

lemma ReadMultiBuffer_body:
  assumes "pending (reader r) = sizeBytes @ rest"
    and "length sizeBytes = SizeBytes (sizeParser r)"
    and "Decode (sizeParser r) (parser_state r) sizeBytes = (Inr sz, ps)"
    and "unat sz \<noteq> Overhead (auth r)"
    and "rest = body @ rest'"
    and "length body = unat sz"
  shows "ReadMultiBuffer r =
     (case Open (auth r) (auth_state r) body of
        (Inl err, st) \<Rightarrow>
          (Inl err, r\<lparr>reader := (reader r)\<lparr>pending := rest'\<rparr>, parser_state := ps,
                      auth_state := st\<rparr>)
      | (Inr plain, st) \<Rightarrow>
          (Inr [plain], r\<lparr>reader := (reader r)\<lparr>pending := rest'\<rparr>, parser_state := ps,
                          auth_state := st\<rparr>))"
  using readSize_decoded [OF assms(1,2)] assms(3,4,5,6)
  by (simp add: ReadMultiBuffer_def ReadFull_def split: prod.splits sum.splits)

lemma AEADAuthenticator_Open_bad_nonce:
  "length (fst (BytesGenerator_Next (NonceGenerator v))) \<noteq> aead_NonceSize (aead v) \<Longrightarrow>
   fst (AEADAuthenticator_Open v cipherText)
     = Inl (InvalidAEADNonceSize (length (fst (BytesGenerator_Next (NonceGenerator v)))))"
  by (simp add: AEADAuthenticator_Open_def Let_def split_beta)

lemma AEADAuthenticator_Open_result:
  "length (fst (BytesGenerator_Next (NonceGenerator v))) = aead_NonceSize (aead v) \<Longrightarrow>
   fst (AEADAuthenticator_Open v cipherText)
     = aead_Open (aead v) (fst (BytesGenerator_Next (NonceGenerator v))) cipherText
         (case AdditionalDataGenerator v of None \<Rightarrow> []
          | Some adg \<Rightarrow> fst (BytesGenerator_Next adg))"
  by (simp add: AEADAuthenticator_Open_def Let_def split_beta split: option.splits)

text \<open>
  Claim C2. \<open>ReadMultiBuffer\<close> first reads \<open>SizeBytes()\<close> bytes and decodes them as the
  frame size. A stream too short for the size gives the read error. When the decoded
  size equals \<open>Overhead()\<close> it returns \<open>io.EOF\<close>, having read nothing after the size
  bytes and leaving the authenticator untouched. Otherwise it reads exactly \<open>size\<close>
  bytes: a stream too short for them gives the read error; a failing \<open>Open\<close> gives that
  error; and a successful \<open>Open\<close> gives the plaintext as a \<open>MultiBuffer\<close> of one buffer,
  the stream being left just after the frame. An error of the size decoder is returned
  as it is. For the AEAD authenticator, \<open>Open\<close> fails with the nonce-size error when the
  generated nonce has the wrong length, and otherwise returns what the AEAD primitive
  returns, its failure included.
\<close>

theorem ReadMultiBuffer_cases:
  "(length (pending (reader r)) < SizeBytes (sizeParser r) \<longrightarrow>
      fst (ReadMultiBuffer r)
        = Inl (if final (reader r) = EOF \<and> pending (reader r) \<noteq> [] then ErrUnexpectedEOF
               else final (reader r)))
   \<and> (pending (reader r) = sizeBytes @ rest \<and> length sizeBytes = SizeBytes (sizeParser r) \<longrightarrow>
        (Decode (sizeParser r) (parser_state r) sizeBytes = (Inl err, ps) \<longrightarrow>
           fst (ReadMultiBuffer r) = Inl err)
      \<and> (Decode (sizeParser r) (parser_state r) sizeBytes = (Inr sz, ps)
           \<and> unat sz = Overhead (auth r) \<longrightarrow>
           ReadMultiBuffer r
             = (Inl EOF, r\<lparr>reader := (reader r)\<lparr>pending := rest\<rparr>, parser_state := ps\<rparr>))
      \<and> (Decode (sizeParser r) (parser_state r) sizeBytes = (Inr sz, ps)
           \<and> unat sz \<noteq> Overhead (auth r) \<and> length rest < unat sz \<longrightarrow>
           fst (ReadMultiBuffer r)
             = Inl (if final (reader r) = EOF \<and> rest \<noteq> [] then ErrUnexpectedEOF
                    else final (reader r)))
      \<and> (Decode (sizeParser r) (parser_state r) sizeBytes = (Inr sz, ps)
           \<and> unat sz \<noteq> Overhead (auth r) \<and> rest = body @ rest' \<and> length body = unat sz \<longrightarrow>
             (Open (auth r) (auth_state r) body = (Inl err, st) \<longrightarrow>
                ReadMultiBuffer r
                  = (Inl err, r\<lparr>reader := (reader r)\<lparr>pending := rest'\<rparr>, parser_state := ps,
                                 auth_state := st\<rparr>))
           \<and> (Open (auth r) (auth_state r) body = (Inr plain, st) \<longrightarrow>
                ReadMultiBuffer r
                  = (Inr [plain], r\<lparr>reader := (reader r)\<lparr>pending := rest'\<rparr>,
                                     parser_state := ps, auth_state := st\<rparr>))))
   \<and> (length (fst (BytesGenerator_Next (NonceGenerator v))) \<noteq> aead_NonceSize (aead v) \<longrightarrow>
        fst (AEADAuthenticator_Open v cipherText)
          = Inl (InvalidAEADNonceSize (length (fst (BytesGenerator_Next (NonceGenerator v))))))
   \<and> (length (fst (BytesGenerator_Next (NonceGenerator v))) = aead_NonceSize (aead v) \<longrightarrow>
        fst (AEADAuthenticator_Open v cipherText)
          = aead_Open (aead v) (fst (BytesGenerator_Next (NonceGenerator v))) cipherText
              (case AdditionalDataGenerator v of None \<Rightarrow> []
               | Some adg \<Rightarrow> fst (BytesGenerator_Next adg)))"
proof -
  have body_err: "ReadMultiBuffer r
      = (Inl err, r\<lparr>reader := (reader r)\<lparr>pending := rest'\<rparr>, parser_state := ps,
                     auth_state := st\<rparr>)"
    if "pending (reader r) = sizeBytes @ rest" "length sizeBytes = SizeBytes (sizeParser r)"
       "Decode (sizeParser r) (parser_state r) sizeBytes = (Inr sz, ps)"
       "unat sz \<noteq> Overhead (auth r)" "rest = body @ rest'" "length body = unat sz"
       "Open (auth r) (auth_state r) body = (Inl err, st)"
    using ReadMultiBuffer_body [OF that(1-6)] that(7) by simp
  have body_ok: "ReadMultiBuffer r
      = (Inr [plain], r\<lparr>reader := (reader r)\<lparr>pending := rest'\<rparr>, parser_state := ps,
                         auth_state := st\<rparr>)"
    if "pending (reader r) = sizeBytes @ rest" "length sizeBytes = SizeBytes (sizeParser r)"
       "Decode (sizeParser r) (parser_state r) sizeBytes = (Inr sz, ps)"
       "unat sz \<noteq> Overhead (auth r)" "rest = body @ rest'" "length body = unat sz"
       "Open (auth r) (auth_state r) body = (Inr plain, st)"
    using ReadMultiBuffer_body [OF that(1-6)] that(7) by simp
  show ?thesis
    using ReadMultiBuffer_short_size [of r]
      ReadMultiBuffer_decode_error [of r sizeBytes rest err ps]
      ReadMultiBuffer_eof [of r sizeBytes rest sz ps]
      ReadMultiBuffer_short_body [of r sizeBytes rest sz ps]
      body_err body_ok
      AEADAuthenticator_Open_bad_nonce [of v cipherText]
      AEADAuthenticator_Open_result [of v cipherText]
    by blast
qed

theorem ReadMultiBuffer_cases_witness:
  "let a = \<lparr>Overhead = 1,
            Open = (\<lambda>st ct. (if ct \<noteq> [] \<and> last ct = 0xAA then Inr (butlast ct)
                               else Inl (CipherError 1), Suc st)),
            Seal = (\<lambda>st pt. (Inr (pt @ [0xAA]), Suc st))\<rparr>;
       p = \<lparr>SizeBytes = 2, Decode = (\<lambda>ps bs. (Inr (ucast (bs ! 1)), ps))\<rparr>;
       rdr = (\<lambda>bs. \<lparr>auth = a, auth_state = (0 :: nat),
                     reader = \<lparr>pending = bs, final = EOF\<rparr>,
                     sizeParser = p, parser_state = (), transferType = TransferTypeStream\<rparr>)
   in fst (ReadMultiBuffer (rdr [0, 3, 0x61, 0x62, 0xAA, 0, 1, 0xAA])) = Inr [[0x61, 0x62]]
      \<and> pending (reader (snd (ReadMultiBuffer (rdr [0, 3, 0x61, 0x62, 0xAA, 0, 1, 0xAA]))))
          = [0, 1, 0xAA]
      \<and> ReadMultiBuffer (rdr [0, 1, 0xAA, 7]) = (Inl EOF, rdr [0xAA, 7])
      \<and> fst (ReadMultiBuffer (rdr [0])) = Inl ErrUnexpectedEOF
      \<and> fst (ReadMultiBuffer (rdr [])) = Inl EOF
      \<and> fst (ReadMultiBuffer (rdr [0, 3, 0x61])) = Inl ErrUnexpectedEOF
      \<and> fst (ReadMultiBuffer (rdr [0, 3, 0x61, 0x62, 0xBB])) = Inl (CipherError 1)
      \<and> fst (AEADAuthenticator_Open
            \<lparr>aead = \<lparr>aead_NonceSize = 12, aead_Overhead = 16,
                      aead_Open = (\<lambda>n c ad. Inr c), aead_Seal = (\<lambda>n pt ad. pt)\<rparr>,
             NonceGenerator = StaticBytesGenerator [1, 2],
             AdditionalDataGenerator = None\<rparr> [5])
          = Inl (InvalidAEADNonceSize 2)"
proof -
  define a :: "nat Authenticator" where
    "a = \<lparr>Overhead = 1,
          Open = (\<lambda>st ct. (if ct \<noteq> [] \<and> last ct = 0xAA then Inr (butlast ct)
                             else Inl (CipherError 1), Suc st)),
          Seal = (\<lambda>st pt. (Inr (pt @ [0xAA]), Suc st))\<rparr>"
  define p :: "unit ChunkSizeDecoder" where
    "p = \<lparr>SizeBytes = 2, Decode = (\<lambda>ps bs. (Inr (ucast (bs ! 1)), ps))\<rparr>"
  define rdr :: "byte list \<Rightarrow> (nat, unit) AuthenticationReader" where
    "rdr = (\<lambda>bs. \<lparr>auth = a, auth_state = 0, reader = \<lparr>pending = bs, final = EOF\<rparr>,
           sizeParser = p, parser_state = (), transferType = TransferTypeStream\<rparr>)"
  define v :: AEADAuthenticator where
    "v = \<lparr>aead = \<lparr>aead_NonceSize = 12, aead_Overhead = 16,
                   aead_Open = (\<lambda>n c ad. Inr c), aead_Seal = (\<lambda>n pt ad. pt)\<rparr>,
          NonceGenerator = StaticBytesGenerator [1, 2],
          AdditionalDataGenerator = None\<rparr>"
  have s: "SizeBytes (sizeParser (rdr bs)) = 2" "Overhead (auth (rdr bs)) = 1"
    "pending (reader (rdr bs)) = bs" "final (reader (rdr bs)) = EOF"
    for bs
    by (simp_all add: rdr_def p_def a_def)
  have d: "Decode (sizeParser (rdr bs)) (parser_state (rdr bs)) [0, n] = (Inr (ucast n), ())"
    for bs n
    by (simp add: rdr_def p_def)
  have e0: "ReadMultiBuffer (rdr [0, 3, 0x61, 0x62, 0xAA, 0, 1, 0xAA])
      = (Inr [[0x61, 0x62]],
         (rdr [0, 3, 0x61, 0x62, 0xAA, 0, 1, 0xAA])
           \<lparr>reader := (reader (rdr [0, 3, 0x61, 0x62, 0xAA, 0, 1, 0xAA]))\<lparr>pending := [0, 1, 0xAA]\<rparr>,
            parser_state := (), auth_state := 1\<rparr>)"
    using ReadMultiBuffer_cases [where r = "rdr [0, 3, 0x61, 0x62, 0xAA, 0, 1, 0xAA]"
        and sizeBytes = "[0, 3]" and rest = "[0x61, 0x62, 0xAA, 0, 1, 0xAA]" and sz = 3
        and ps = "()" and body = "[0x61, 0x62, 0xAA]" and rest' = "[0, 1, 0xAA]"
        and plain = "[0x61, 0x62]" and st = 1]
      s [of "[0, 3, 0x61, 0x62, 0xAA, 0, 1, 0xAA]"] d [of "[0, 3, 0x61, 0x62, 0xAA, 0, 1, 0xAA]" 3]
    by (simp add: rdr_def a_def)
  have e1: "ReadMultiBuffer (rdr [0, 1, 0xAA, 7]) = (Inl EOF, rdr [0xAA, 7])"
    using ReadMultiBuffer_cases [where r = "rdr [0, 1, 0xAA, 7]"
        and sizeBytes = "[0, 1]" and rest = "[0xAA, 7]" and sz = 1 and ps = "()"]
      s [of "[0, 1, 0xAA, 7]"] d [of "[0, 1, 0xAA, 7]" 1]
    by (simp add: rdr_def)
  have e2: "fst (ReadMultiBuffer (rdr [0])) = Inl ErrUnexpectedEOF"
    using ReadMultiBuffer_cases [where r = "rdr [0]"] s [of "[0]"] by simp
  have e3: "fst (ReadMultiBuffer (rdr [])) = Inl EOF"
    using ReadMultiBuffer_cases [where r = "rdr []"] s [of "[]"] by simp
  have e4: "fst (ReadMultiBuffer (rdr [0, 3, 0x61])) = Inl ErrUnexpectedEOF"
    using ReadMultiBuffer_cases [where r = "rdr [0, 3, 0x61]"
        and sizeBytes = "[0, 3]" and rest = "[0x61]" and sz = 3 and ps = "()"]
      s [of "[0, 3, 0x61]"] d [of "[0, 3, 0x61]" 3]
    by simp
  have e5: "fst (ReadMultiBuffer (rdr [0, 3, 0x61, 0x62, 0xBB])) = Inl (CipherError 1)"
    using ReadMultiBuffer_cases [where r = "rdr [0, 3, 0x61, 0x62, 0xBB]"
        and sizeBytes = "[0, 3]" and rest = "[0x61, 0x62, 0xBB]" and sz = 3 and ps = "()"
        and body = "[0x61, 0x62, 0xBB]" and rest' = "[]" and err = "CipherError 1" and st = 1]
      s [of "[0, 3, 0x61, 0x62, 0xBB]"] d [of "[0, 3, 0x61, 0x62, 0xBB]" 3]
    by (simp add: rdr_def a_def)
  have e6: "fst (AEADAuthenticator_Open v [5]) = Inl (InvalidAEADNonceSize 2)"
  proof -
    have n: "length (fst (BytesGenerator_Next (NonceGenerator v))) = 2"
      by (simp add: v_def)
    have "length (fst (BytesGenerator_Next (NonceGenerator v))) \<noteq> aead_NonceSize (aead v)"
      by (simp add: v_def)
    then show ?thesis
      using ReadMultiBuffer_cases [where v = v and cipherText = "[5]",
          THEN conjunct2, THEN conjunct2, THEN conjunct1]
      unfolding n by blast
  qed
  from e0 e1 e2 e3 e4 e5 e6 show ?thesis
    unfolding Let_def rdr_def [symmetric] a_def [symmetric] p_def [symmetric] v_def [symmetric]
    by (simp add: rdr_def)
qed

section \<open>Properties of the authentication writer\<close>

lemma mb_Read_concat:
  "fst (mb_Read n mb) = take n (concat mb) \<and> concat (snd (mb_Read n mb)) = drop n (concat mb)"
proof (induction mb arbitrary: n)
  case Nil
  show ?case by simp
next
  case (Cons b bs)
  show ?case
    using Cons [of "n - length b"] by (simp add: split_beta)
qed

lemma mb_IsEmpty_concat: "mb_IsEmpty mb \<longleftrightarrow> concat mb = []"
  by (induction mb) (simp_all add: mb_IsEmpty_def)

lemma chunks_one: "length xs \<le> n \<Longrightarrow> chunks n xs = [xs]"
  by (subst chunks.simps) simp

lemma chunks_more:
  "0 < n \<Longrightarrow> n < length xs \<Longrightarrow> chunks n xs = take n xs # chunks n (drop n xs)"
  by (subst chunks.simps) simp

lemma seal_chunks_single:
  "seal_chunks w [c] = (case seal w c of (Inl err, w') \<Rightarrow> (Inl err, w') | (Inr eb, w') \<Rightarrow> (Inr [eb], w'))"
  by (simp split: prod.splits sum.splits)

lemma writeStream_loop_chunks:
  assumes "0 < n"
  shows "writeStream_loop n w mb acc =
     Some (case seal_chunks w (chunks n (concat mb)) of
             (Inl err, w') \<Rightarrow> (Inl err, w')
           | (Inr ebs, w') \<Rightarrow> (Inr (acc @ ebs), w'))"
proof (induction "length (concat mb)" arbitrary: mb w acc rule: less_induct)
  case less
  obtain b mb' where rd: "mb_Read n mb = (b, mb')" by (cases "mb_Read n mb")
  have b: "b = take n (concat mb)" and mb': "concat mb' = drop n (concat mb)"
    using mb_Read_concat [of n mb] rd by simp_all
  obtain res w' where sl: "seal w b = (res, w')" by (cases "seal w b")
  show ?case
  proof (cases res)
    case (Inl err)
    have "writeStream_loop n w mb acc = Some (Inl err, w')"
      by (subst writeStream_loop.simps) (simp add: rd sl Inl)
    moreover have "fst (seal_chunks w (chunks n (concat mb))) = Inl err
        \<and> snd (seal_chunks w (chunks n (concat mb))) = w'"
    proof (cases "length (concat mb) \<le> n")
      case True
      then show ?thesis using sl Inl b by (simp add: chunks_one)
    next
      case False
      then show ?thesis using sl Inl b assms by (simp add: chunks_more)
    qed
    ultimately show ?thesis by (simp add: split_beta)
  next
    case (Inr eb)
    show ?thesis
    proof (cases "mb_IsEmpty mb'")
      case True
      then have le: "length (concat mb) \<le> n"
        using mb' by (simp add: mb_IsEmpty_concat)
      have "writeStream_loop n w mb acc = Some (Inr (acc @ [eb]), w')"
        by (subst writeStream_loop.simps) (simp add: rd sl Inr True)
      then show ?thesis using le sl Inr b by (simp add: chunks_one)
    next
      case False
      then have gt: "n < length (concat mb)"
        using mb' by (simp add: mb_IsEmpty_concat)
      have smaller: "length (concat mb') < length (concat mb)"
        using gt assms mb' by simp
      have "writeStream_loop n w mb acc = writeStream_loop n w' mb' (acc @ [eb])"
        by (subst writeStream_loop.simps) (simp add: rd sl Inr False)
      also have "\<dots> = Some (case seal_chunks w' (chunks n (concat mb')) of
             (Inl err, w'') \<Rightarrow> (Inl err, w'')
           | (Inr ebs, w'') \<Rightarrow> (Inr ((acc @ [eb]) @ ebs), w''))"
        using smaller by (rule less)
      finally show ?thesis
        using gt assms sl Inr b mb'
        by (simp add: chunks_more split: prod.splits sum.splits)
    qed
  qed
qed

lemma chunks_concat: "concat (chunks n xs) = xs"
proof (induction n xs rule: chunks.induct)
  case (1 n xs)
  show ?case
  proof (cases "n = 0 \<or> length xs \<le> n")
    case True
    then show ?thesis by (subst chunks.simps) simp
  next
    case False
    then have "concat (chunks n (drop n xs)) = drop n xs" by (rule 1)
    then show ?thesis using False by (subst chunks.simps) simp
  qed
qed

lemma chunks_not_empty: "chunks n xs \<noteq> []"
  by (subst chunks.simps) simp

lemma chunks_lengths:
  "0 < n \<Longrightarrow> (\<forall>c \<in> set (butlast (chunks n xs)). length c = n) \<and> length (last (chunks n xs)) \<le> n"
proof (induction n xs rule: chunks.induct)
  case (1 n xs)
  show ?case
  proof (cases "length xs \<le> n")
    case True
    then show ?thesis by (simp add: chunks_one)
  next
    case False
    then have ih: "(\<forall>c \<in> set (butlast (chunks n (drop n xs))). length c = n)
        \<and> length (last (chunks n (drop n xs))) \<le> n"
      using 1 by simp
    have "chunks n xs = take n xs # chunks n (drop n xs)"
      using False 1(2) by (simp add: chunks_more)
    then show ?thesis using ih False chunks_not_empty [of n "drop n xs"] by simp
  qed
qed

lemma seal_frame:
  assumes "Encode (w_sizeParser w) (w_parser_state w) (of_nat (length c + Overhead (w_auth w)))
            = (sizeBytes, ps)"
    and "length sizeBytes = enc_SizeBytes (w_sizeParser w)"
    and "Seal (w_auth w) (w_auth_state w) c = (Inr sealed, st)"
    and "length sealed = length c + Overhead (w_auth w)"
  shows "seal w c = (Inr (sizeBytes @ sealed), w\<lparr>w_auth_state := st, w_parser_state := ps\<rparr>)"
  using assms by (simp add: seal_def Let_def)

text \<open>
  Claim C7. In stream mode, and when \<open>buf.Size - Overhead() - SizeBytes()\<close> is positive,
  \<open>WriteMultiBuffer\<close> returns, and what it does is: cut the bytes of the \<open>MultiBuffer\<close>
  into chunks of exactly that many bytes, the last chunk possibly shorter (an empty
  payload is one empty chunk); seal the chunks in payload order; and hand the frames, in
  that order, to the underlying writer in one call, or return the first sealing error
  and write nothing. The chunks concatenate to the payload. The frame of a chunk is the
  encoded size \<open>len(chunk) + Overhead()\<close> followed by the sealed bytes.
\<close>

theorem writeStream_frames:
  assumes "Overhead (w_auth w) + enc_SizeBytes (w_sizeParser w) < bufSize"
    and "w_transferType w = TransferTypeStream"
  shows "WriteMultiBuffer bufSize w mb =
       Some (case seal_chunks w
                    (chunks (bufSize - Overhead (w_auth w) - enc_SizeBytes (w_sizeParser w))
                       (concat mb)) of
               (Inl err, w') \<Rightarrow> (Some err, w')
             | (Inr frames, w') \<Rightarrow>
                 (case writer w' (writer_state w') frames of
                    (r, out) \<Rightarrow> (r, w'\<lparr>writer_state := out\<rparr>)))
     \<and> concat (chunks (bufSize - Overhead (w_auth w) - enc_SizeBytes (w_sizeParser w))
                 (concat mb)) = concat mb
     \<and> (\<forall>c \<in> set (butlast (chunks (bufSize - Overhead (w_auth w) - enc_SizeBytes (w_sizeParser w))
                               (concat mb))).
          length c = bufSize - Overhead (w_auth w) - enc_SizeBytes (w_sizeParser w))
     \<and> length (last (chunks (bufSize - Overhead (w_auth w) - enc_SizeBytes (w_sizeParser w))
                        (concat mb)))
         \<le> bufSize - Overhead (w_auth w) - enc_SizeBytes (w_sizeParser w)
     \<and> (Encode (w_sizeParser w') (w_parser_state w') (of_nat (length c + Overhead (w_auth w')))
            = (sizeBytes, ps)
          \<and> length sizeBytes = enc_SizeBytes (w_sizeParser w')
          \<and> Seal (w_auth w') (w_auth_state w') c = (Inr sealed, st)
          \<and> length sealed = length c + Overhead (w_auth w')
        \<longrightarrow> seal w' c
              = (Inr (sizeBytes @ sealed), w'\<lparr>w_auth_state := st, w_parser_state := ps\<rparr>))"
proof -
  let ?n = "bufSize - Overhead (w_auth w) - enc_SizeBytes (w_sizeParser w)"
  have n: "0 < ?n" using assms(1) by simp
  have p: "int bufSize - int (Overhead (w_auth w)) - int (enc_SizeBytes (w_sizeParser w)) = int ?n"
    using assms(1) by simp
  have "writeStream bufSize w mb =
       Some (case seal_chunks w (chunks ?n (concat mb)) of
               (Inl err, w') \<Rightarrow> (Some err, w')
             | (Inr frames, w') \<Rightarrow>
                 (case writer w' (writer_state w') frames of
                    (r, out) \<Rightarrow> (r, w'\<lparr>writer_state := out\<rparr>)))"
    unfolding writeStream_def p Let_def nat_int writeStream_loop_chunks [OF n]
    by (simp split: prod.splits sum.splits del: diff_diff_left)
  then have a: "WriteMultiBuffer bufSize w mb =
       Some (case seal_chunks w (chunks ?n (concat mb)) of
               (Inl err, w') \<Rightarrow> (Some err, w')
             | (Inr frames, w') \<Rightarrow>
                 (case writer w' (writer_state w') frames of
                    (r, out) \<Rightarrow> (r, w'\<lparr>writer_state := out\<rparr>)))"
    using assms(2) by (simp add: WriteMultiBuffer_def)
  have b: "concat (chunks ?n (concat mb)) = concat mb" by (rule chunks_concat)
  have c: "(\<forall>c \<in> set (butlast (chunks ?n (concat mb))). length c = ?n)
      \<and> length (last (chunks ?n (concat mb))) \<le> ?n"
    using n by (rule chunks_lengths)
  have d: "seal w' c = (Inr (sizeBytes @ sealed), w'\<lparr>w_auth_state := st, w_parser_state := ps\<rparr>)"
    if "Encode (w_sizeParser w') (w_parser_state w') (of_nat (length c + Overhead (w_auth w')))
            = (sizeBytes, ps)"
       "length sizeBytes = enc_SizeBytes (w_sizeParser w')"
       "Seal (w_auth w') (w_auth_state w') c = (Inr sealed, st)"
       "length sealed = length c + Overhead (w_auth w')"
    using that by (rule seal_frame)
  from a b c d show ?thesis by blast
qed

theorem writeStream_frames_witness:
  "WriteMultiBuffer 8
     \<lparr>w_auth = \<lparr>Overhead = 1,
                 Open = (\<lambda>st ct. (Inr (butlast ct), Suc st)),
                 Seal = (\<lambda>st pt. (Inr (pt @ [0xAA]), Suc st))\<rparr>,
      w_auth_state = (0 :: nat),
      writer = (\<lambda>out mb. (None, out @ mb)),
      writer_state = [],
      w_sizeParser = \<lparr>enc_SizeBytes = 2, Encode = (\<lambda>ps sz. ([0, ucast sz], ps))\<rparr>,
      w_parser_state = (),
      w_transferType = TransferTypeStream\<rparr>
     [[1, 2, 3], [4, 5, 6, 7]]
   = Some (None,
     \<lparr>w_auth = \<lparr>Overhead = 1,
                 Open = (\<lambda>st ct. (Inr (butlast ct), Suc st)),
                 Seal = (\<lambda>st pt. (Inr (pt @ [0xAA]), Suc st))\<rparr>,
      w_auth_state = 2,
      writer = (\<lambda>out mb. (None, out @ mb)),
      writer_state = [[0, 6, 1, 2, 3, 4, 5, 0xAA], [0, 3, 6, 7, 0xAA]],
      w_sizeParser = \<lparr>enc_SizeBytes = 2, Encode = (\<lambda>ps sz. ([0, ucast sz], ps))\<rparr>,
      w_parser_state = (),
      w_transferType = TransferTypeStream\<rparr>)"
proof -
  define w0 :: "(nat, unit, byte list list) AuthenticationWriter" where
    "w0 = \<lparr>w_auth = \<lparr>Overhead = 1,
                 Open = (\<lambda>st ct. (Inr (butlast ct), Suc st)),
                 Seal = (\<lambda>st pt. (Inr (pt @ [0xAA]), Suc st))\<rparr>,
      w_auth_state = (0 :: nat),
      writer = (\<lambda>out mb. (None, out @ mb)),
      writer_state = [],
      w_sizeParser = \<lparr>enc_SizeBytes = 2, Encode = (\<lambda>ps sz. ([0, ucast sz], ps))\<rparr>,
      w_parser_state = (),
      w_transferType = TransferTypeStream\<rparr>"
  have h: "Overhead (w_auth w0) + enc_SizeBytes (w_sizeParser w0) < 8"
    "w_transferType w0 = TransferTypeStream"
    by (simp_all add: w0_def)
  have c: "chunks (8 - Overhead (w_auth w0) - enc_SizeBytes (w_sizeParser w0))
             (concat [[1, 2, 3], [4, 5, 6, 7 :: byte]])
           = [[1, 2, 3, 4, 5], [6, 7]]"
    by (simp add: w0_def chunks.simps)
  have "WriteMultiBuffer 8 w0 [[1, 2, 3], [4, 5, 6, 7]] =
       Some (case seal_chunks w0 [[1, 2, 3, 4, 5], [6, 7]] of
               (Inl err, w') \<Rightarrow> (Some err, w')
             | (Inr frames, w') \<Rightarrow>
                 (case writer w' (writer_state w') frames of
                    (r, out) \<Rightarrow> (r, w'\<lparr>writer_state := out\<rparr>)))"
    using writeStream_frames [OF h, of "[[1, 2, 3], [4, 5, 6, 7]]", THEN conjunct1]
    unfolding c .
  then show ?thesis
    unfolding w0_def by (simp add: seal_def Let_def)
qed

section \<open>Properties of the inbound handler manager\<close>

lemma AddHandler_handlers: "handlers (snd (AddHandler m h)) = handlers m @ [h]"
  by (simp add: AddHandler_def Let_def)

lemma AddHandler_result: "fst (AddHandler m h) = None"
  by (simp add: AddHandler_def Let_def)

lemma AddHandler_tagged:
  "taggedHandlers (snd (AddHandler m h)) t
     = (if Tag h = t \<and> t \<noteq> [] then Some h else taggedHandlers m t)"
  by (auto simp add: AddHandler_def Let_def)

lemma AddHandler_calls_handlers:
  "handlers (snd (AddHandler_calls m hs)) = handlers m @ hs"
proof (induction hs arbitrary: m)
  case Nil
  show ?case by simp
next
  case (Cons h hs)
  show ?case
    using Cons [of "snd (AddHandler m h)"] AddHandler_handlers [of m h]
    by (simp add: split_beta)
qed

lemma AddHandler_calls_results:
  "fst (AddHandler_calls m hs) = replicate (length hs) None"
proof (induction hs arbitrary: m)
  case Nil
  show ?case by simp
next
  case (Cons h hs)
  show ?case
    using Cons [of "snd (AddHandler m h)"] AddHandler_result [of m h]
    by (simp add: split_beta)
qed

lemma AddHandler_calls_tagged:
  "taggedHandlers (snd (AddHandler_calls m hs)) t
     = (if t \<noteq> [] \<and> filter (\<lambda>h. Tag h = t) hs \<noteq> []
        then Some (last (filter (\<lambda>h. Tag h = t) hs))
        else taggedHandlers m t)"
proof (induction hs arbitrary: m)
  case Nil
  show ?case by simp
next
  case (Cons h hs)
  show ?case
    using Cons [of "snd (AddHandler m h)"] AddHandler_tagged [of m h t]
    by (cases "t = []") (simp_all add: split_beta)
qed

lemma last_filter_split:
  assumes "P h2" and "\<forall>h \<in> set post. \<not> P h"
  shows "filter P (pre @ h1 # mid @ h2 # post) \<noteq> []
       \<and> last (filter P (pre @ h1 # mid @ h2 # post)) = h2"
proof -
  have "filter P post = []" using assms(2) by (simp add: filter_empty_conv)
  then have "filter P (pre @ h1 # mid @ h2 # post) = filter P (pre @ h1 # mid) @ [h2]"
    using assms(1) by simp
  then show ?thesis by (simp del: filter_append filter.simps)
qed

text \<open>
  Claim C9. Over any sequence of \<open>AddHandler\<close> calls on a new manager: the handler list
  is the added handlers in call order; every call returns \<open>nil\<close>; when two added
  handlers share a non-empty tag, after the calls the tag maps to the later one (the last
  handler added with that tag) while both are in the list; and \<open>GetHandler\<close> on a tag
  that no added handler carries returns the not-found error.
\<close>

theorem AddHandler_last_write_wins:
  "handlers (snd (AddHandler_calls New_Manager hs)) = hs
   \<and> fst (AddHandler_calls New_Manager hs) = replicate (length hs) None
   \<and> fst (AddHandler m h) = None
   \<and> (hs = pre @ h1 # mid @ h2 # post \<and> Tag h1 = t \<and> Tag h2 = t \<and> t \<noteq> []
        \<and> (\<forall>h \<in> set post. Tag h \<noteq> t)
      \<longrightarrow> taggedHandlers (snd (AddHandler_calls New_Manager hs)) t = Some h2
          \<and> GetHandler (snd (AddHandler_calls New_Manager hs)) t = Inr h2
          \<and> h1 \<in> set (handlers (snd (AddHandler_calls New_Manager hs)))
          \<and> h2 \<in> set (handlers (snd (AddHandler_calls New_Manager hs))))
   \<and> ((\<forall>h \<in> set hs. Tag h \<noteq> t)
      \<longrightarrow> GetHandler (snd (AddHandler_calls New_Manager hs)) t = Inl (HandlerNotFound t))"
proof -
  let ?m = "snd (AddHandler_calls New_Manager hs)"
  have a: "handlers ?m = hs"
    by (simp add: AddHandler_calls_handlers New_Manager_def)
  have b: "fst (AddHandler_calls New_Manager hs) = replicate (length hs) None"
    by (rule AddHandler_calls_results)
  have c: "fst (AddHandler m h) = None"
    by (rule AddHandler_result)
  have d: "taggedHandlers ?m t = Some h2"
    if h: "hs = pre @ h1 # mid @ h2 # post" and t: "Tag h2 = t" "t \<noteq> []"
       and p: "\<forall>h \<in> set post. Tag h \<noteq> t"
  proof -
    have "filter (\<lambda>h. Tag h = t) hs \<noteq> [] \<and> last (filter (\<lambda>h. Tag h = t) hs) = h2"
      unfolding h using t(1) p by (rule last_filter_split)
    then show ?thesis using t(2) by (simp only: AddHandler_calls_tagged) simp
  qed
  have d': "GetHandler ?m t = Inr h2" if "taggedHandlers ?m t = Some h2"
    using that by (simp add: GetHandler_def)
  have d'': "h1 \<in> set (handlers ?m) \<and> h2 \<in> set (handlers ?m)"
    if "hs = pre @ h1 # mid @ h2 # post"
    unfolding a using that by simp
  have e: "GetHandler ?m t = Inl (HandlerNotFound t)" if "\<forall>h \<in> set hs. Tag h \<noteq> t"
  proof -
    have "filter (\<lambda>h. Tag h = t) hs = []"
      using that by (simp add: filter_empty_conv)
    then have "taggedHandlers ?m t = None"
      by (simp add: AddHandler_calls_tagged New_Manager_def)
    then show ?thesis by (simp add: GetHandler_def)
  qed
  from a b c d d' d'' e show ?thesis by blast
qed

theorem AddHandler_last_write_wins_witness:
  "GetHandler (snd (AddHandler_calls New_Manager
      [\<lparr>Tag = ''in'', handler_id = 1\<rparr>, \<lparr>Tag = '''', handler_id = 2\<rparr>,
       \<lparr>Tag = ''in'', handler_id = 3\<rparr>])) ''in''
     = Inr \<lparr>Tag = ''in'', handler_id = 3\<rparr>
   \<and> handlers (snd (AddHandler_calls New_Manager
      [\<lparr>Tag = ''in'', handler_id = 1\<rparr>, \<lparr>Tag = '''', handler_id = 2\<rparr>,
       \<lparr>Tag = ''in'', handler_id = 3\<rparr>]))
     = [\<lparr>Tag = ''in'', handler_id = 1\<rparr>, \<lparr>Tag = '''', handler_id = 2\<rparr>,
        \<lparr>Tag = ''in'', handler_id = 3\<rparr>]
   \<and> GetHandler (snd (AddHandler_calls New_Manager
      [\<lparr>Tag = ''in'', handler_id = 1\<rparr>, \<lparr>Tag = '''', handler_id = 2\<rparr>,
       \<lparr>Tag = ''in'', handler_id = 3\<rparr>])) ''out''
     = Inl (HandlerNotFound ''out'')"
proof -
  define h_a :: InboundHandler where "h_a = \<lparr>Tag = ''in'', handler_id = 1\<rparr>"
  define h_b :: InboundHandler where "h_b = \<lparr>Tag = '''', handler_id = 2\<rparr>"
  define h_c :: InboundHandler where "h_c = \<lparr>Tag = ''in'', handler_id = 3\<rparr>"
  have s: "[h_a, h_b, h_c] = [] @ h_a # [h_b] @ h_c # []" by simp
  have t: "Tag h_a = ''in''" "Tag h_c = ''in''" "''in'' \<noteq> []" "\<forall>h \<in> set []. Tag h \<noteq> ''in''"
    by (simp_all add: h_a_def h_c_def)
  have n: "\<forall>h \<in> set [h_a, h_b, h_c]. Tag h \<noteq> ''out''"
    by (simp add: h_a_def h_b_def h_c_def)
  note w1 = AddHandler_last_write_wins
    [where hs = "[h_a, h_b, h_c]" and pre = "[]" and ?h1.0 = h_a and mid = "[h_b]"
       and ?h2.0 = h_c and post = "[]" and t = "''in''"]
  note w2 = AddHandler_last_write_wins
    [where hs = "[h_a, h_b, h_c]" and t = "''out''"]
  have 1: "GetHandler (snd (AddHandler_calls New_Manager [h_a, h_b, h_c])) ''in'' = Inr h_c"
    using w1 s t by blast
  have 2: "handlers (snd (AddHandler_calls New_Manager [h_a, h_b, h_c])) = [h_a, h_b, h_c]"
    using w1 by blast
  have 3: "GetHandler (snd (AddHandler_calls New_Manager [h_a, h_b, h_c])) ''out''
       = Inl (HandlerNotFound ''out'')"
    using w2 n by blast
  from 1 2 3 show ?thesis unfolding h_a_def h_b_def h_c_def by blast
qed

section \<open>Properties of the socks server policy\<close>

lemma unat_32_lt: "unat (t :: 32 word) < 4294967296"
  using unsigned_less [of t, where ?'a = nat] by simp

lemma uint_ucast_32_64: "uint (ucast (t :: 32 word) :: 64 word) = uint t"
  by (simp add: uint_up_ucast is_up)

lemma timeout_seconds_exact:
  "sint (ucast (t :: 32 word) * Second :: 64 word) = int (unat t) * 1000000000"
proof -
  have lt: "uint t < 4294967296"
    using unsigned_less [of t, where ?'a = int] by simp
  have ge: "0 \<le> uint t" by simp
  have m: "uint t * 1000000000 < 2 ^ 63"
  proof -
    have "uint t * 1000000000 < 4294967296 * 1000000000" using lt by simp
    also have "\<dots> < (2 :: int) ^ 63" by simp
    finally show ?thesis .
  qed
  have m0: "0 \<le> uint t * 1000000000" using ge by simp
  have "uint (ucast t * Second :: 64 word) = (uint t * 1000000000) mod 2 ^ 64"
    by (simp add: uint_word_ariths uint_ucast_32_64 Second_def)
  also have "\<dots> = uint t * 1000000000"
    using m m0 by (simp add: mod_pos_pos_trivial)
  finally have u: "uint (ucast t * Second :: 64 word) = uint t * 1000000000" .
  have "sint (ucast t * Second :: 64 word) = signed_take_bit 63 (uint t * 1000000000)"
    by (simp add: sint_uint u)
  also have "\<dots> = uint t * 1000000000"
  proof (rule signed_take_bit_int_eq_self)
    have "- (2 ^ 63) \<le> (0 :: int)" by simp
    then show "- (2 ^ 63) \<le> uint t * 1000000000" using m0 by (rule order_trans)
    show "uint t * 1000000000 < 2 ^ 63" by (rule m)
  qed
  finally have "sint (ucast t * Second :: 64 word) = uint t * 1000000000" .
  then show ?thesis by (simp only: uint_nat)
qed

text \<open>
  Claim C8. The effective policy of a socks server is \<open>ForLevel(config.UserLevel)\<close>,
  except that when \<open>config.UserLevel = 0\<close> and \<open>config.Timeout > 0\<close> its
  \<open>Timeouts.ConnectionIdle\<close> is \<open>config.Timeout\<close> seconds (exactly, the product does
  not overflow); every other field is the one \<open>ForLevel\<close> returned.
\<close>

theorem policy_effective:
  "(UserLevel (config s) = 0 \<and> Timeout (config s) > 0 \<longrightarrow>
      policy s = (ForLevel s 0)\<lparr>Timeouts := (Timeouts (ForLevel s 0))
                   \<lparr>ConnectionIdle := ucast (Timeout (config s)) * Second\<rparr>\<rparr>
      \<and> sint (ConnectionIdle (Timeouts (policy s)))
          = int (unat (Timeout (config s))) * 1000000000)
   \<and> (\<not> (UserLevel (config s) = 0 \<and> Timeout (config s) > 0) \<longrightarrow>
      policy s = ForLevel s (UserLevel (config s)))
   \<and> Handshake (Timeouts (policy s)) = Handshake (Timeouts (ForLevel s (UserLevel (config s))))
   \<and> UplinkOnly (Timeouts (policy s)) = UplinkOnly (Timeouts (ForLevel s (UserLevel (config s))))
   \<and> DownlinkOnly (Timeouts (policy s))
       = DownlinkOnly (Timeouts (ForLevel s (UserLevel (config s))))"
  by (auto simp add: policy_def Let_def timeout_seconds_exact)

theorem policy_effective_witness:
  "policy \<lparr>config = \<lparr>UserLevel = 0, Timeout = 300\<rparr>,
           ForLevel = (\<lambda>l. \<lparr>Timeouts = \<lparr>Handshake = 4000000000, ConnectionIdle = 120000000000,
                                          UplinkOnly = 5000000000, DownlinkOnly = 30000000000\<rparr>\<rparr>)\<rparr>
     = \<lparr>Timeouts = \<lparr>Handshake = 4000000000, ConnectionIdle = 300000000000,
                     UplinkOnly = 5000000000, DownlinkOnly = 30000000000\<rparr>\<rparr>
   \<and> policy \<lparr>config = \<lparr>UserLevel = 1, Timeout = 300\<rparr>,
           ForLevel = (\<lambda>l. \<lparr>Timeouts = \<lparr>Handshake = 4000000000, ConnectionIdle = 120000000000,
                                          UplinkOnly = 5000000000, DownlinkOnly = 30000000000\<rparr>\<rparr>)\<rparr>
     = \<lparr>Timeouts = \<lparr>Handshake = 4000000000, ConnectionIdle = 120000000000,
                     UplinkOnly = 5000000000, DownlinkOnly = 30000000000\<rparr>\<rparr>"
proof -
  let ?f = "\<lambda>l :: 32 word. \<lparr>Timeouts = \<lparr>Handshake = 4000000000 :: Duration,
      ConnectionIdle = 120000000000 :: Duration, UplinkOnly = 5000000000 :: Duration,
      DownlinkOnly = 30000000000 :: Duration\<rparr>\<rparr>"
  have a: "policy \<lparr>config = \<lparr>UserLevel = 0, Timeout = 300\<rparr>, ForLevel = ?f\<rparr>
     = \<lparr>Timeouts = \<lparr>Handshake = 4000000000, ConnectionIdle = 300000000000,
                     UplinkOnly = 5000000000, DownlinkOnly = 30000000000\<rparr>\<rparr>"
    using policy_effective [of "\<lparr>config = \<lparr>UserLevel = 0, Timeout = 300\<rparr>, ForLevel = ?f\<rparr>"]
    by (simp add: Second_def)
  have b: "policy \<lparr>config = \<lparr>UserLevel = 1, Timeout = 300\<rparr>, ForLevel = ?f\<rparr>
     = \<lparr>Timeouts = \<lparr>Handshake = 4000000000, ConnectionIdle = 120000000000,
                     UplinkOnly = 5000000000, DownlinkOnly = 30000000000\<rparr>\<rparr>"
    using policy_effective [of "\<lparr>config = \<lparr>UserLevel = 1, Timeout = 300\<rparr>, ForLevel = ?f\<rparr>"]
    by simp
  from a b show ?thesis by simp
qed

section \<open>Properties of Instance.Start\<close>







section \<open>Properties of the mux server\<close>

text \<open>
  Claim C4, as stated, fails: \<open>Server.Dispatch\<close> compares the address only. A
  destination \<open>v1.mux.cool:80\<close> is not the sentinel \<open>v1.mux.cool:9527\<close>, yet a
  \<open>ServerWorker\<close> is started for it and the fresh ray is returned, where forwarding
  to the core dispatcher would have returned that dispatcher's result.
\<close>

theorem Server_Dispatch_port_counterexample:
  "Port \<lparr>Network = Network_TCP, Address = DomainAddress ''v1.mux.cool'', Port = 80\<rparr>
     \<noteq> muxCoolPort
   \<and> workers (snd (Server_Dispatch (\<lambda>d w. (Inl ''no route'' :: string + unit, w))
        \<lparr>core_state = (), rays_made = 0, workers = []\<rparr>
        \<lparr>Network = Network_TCP, Address = DomainAddress ''v1.mux.cool'', Port = 80\<rparr>))
     = [\<lparr>outboundRay = MuxRay 0, worker_sessionManager = NewSessionManager\<rparr>]
   \<and> fst (Server_Dispatch (\<lambda>d w. (Inl ''no route'' :: string + unit, w))
        \<lparr>core_state = (), rays_made = 0, workers = []\<rparr>
        \<lparr>Network = Network_TCP, Address = DomainAddress ''v1.mux.cool'', Port = 80\<rparr>)
     = Inr (MuxRay 0)
   \<and> fst ((\<lambda>d w. (Inl ''no route'' :: string + unit, w))
        \<lparr>Network = Network_TCP, Address = DomainAddress ''v1.mux.cool'', Port = 80\<rparr> ())
     = Inl ''no route''"
  by (simp add: Server_Dispatch_def muxCoolAddress_def muxCoolPort_def Let_def)

text \<open>
  Claim C4, amended. \<open>Server.Dispatch\<close> starts a \<open>ServerWorker\<close> on a fresh ray and
  returns that ray, without calling the core dispatcher, exactly when the address of the
  destination is the domain \<open>v1.mux.cool\<close>, whatever its port and network; for every
  other destination it calls the core dispatcher with the same destination, returns its
  result and starts no worker.
\<close>

theorem Server_Dispatch_by_address:
  "(Address dest = muxCoolAddress \<longrightarrow>
      Server_Dispatch dispatcher s dest
        = (Inr (MuxRay (rays_made s)),
           s\<lparr>rays_made := rays_made s + 1,
             workers := workers s @ [\<lparr>outboundRay = MuxRay (rays_made s),
                                      worker_sessionManager = NewSessionManager\<rparr>]\<rparr>)
      \<and> core_state (snd (Server_Dispatch dispatcher s dest)) = core_state s)
   \<and> (Address dest \<noteq> muxCoolAddress \<longrightarrow>
      fst (Server_Dispatch dispatcher s dest)
        = map_sum id CoreRay (fst (dispatcher dest (core_state s)))
      \<and> core_state (snd (Server_Dispatch dispatcher s dest)) = snd (dispatcher dest (core_state s))
      \<and> workers (snd (Server_Dispatch dispatcher s dest)) = workers s
      \<and> rays_made (snd (Server_Dispatch dispatcher s dest)) = rays_made s)"
  by (auto simp add: Server_Dispatch_def Let_def split: prod.splits sum.splits)

theorem Server_Dispatch_by_address_witness:
  "Server_Dispatch (\<lambda>d w. (Inl ''no route'' :: string + unit, w))
     \<lparr>core_state = (), rays_made = 0, workers = []\<rparr>
     \<lparr>Network = Network_UDP, Address = DomainAddress ''v1.mux.cool'', Port = 80\<rparr>
   = (Inr (MuxRay 0),
      \<lparr>core_state = (), rays_made = 1,
       workers = [\<lparr>outboundRay = MuxRay 0, worker_sessionManager = NewSessionManager\<rparr>]\<rparr>)
   \<and> fst (Server_Dispatch (\<lambda>d w. (Inl ''no route'' :: string + unit, w))
     \<lparr>core_state = (), rays_made = 0, workers = []\<rparr>
     \<lparr>Network = Network_TCP, Address = DomainAddress ''example.com'', Port = 9527\<rparr>)
   = Inl ''no route''"
proof -
  have a: "Address \<lparr>Network = Network_UDP, Address = DomainAddress ''v1.mux.cool'', Port = 80\<rparr>
           = muxCoolAddress"
    by (simp add: muxCoolAddress_def)
  have b: "Address \<lparr>Network = Network_TCP, Address = DomainAddress ''example.com'', Port = 9527\<rparr>
           \<noteq> muxCoolAddress"
    by (simp add: muxCoolAddress_def)
  note w1 = Server_Dispatch_by_address
    [where dest = "\<lparr>Network = Network_UDP, Address = DomainAddress ''v1.mux.cool'', Port = 80\<rparr>"
       and dispatcher = "\<lambda>d w. (Inl ''no route'' :: string + unit, w)"
       and s = "\<lparr>core_state = (), rays_made = 0, workers = []\<rparr>"]
  note w2 = Server_Dispatch_by_address
    [where dest = "\<lparr>Network = Network_TCP, Address = DomainAddress ''example.com'', Port = 9527\<rparr>"
       and dispatcher = "\<lambda>d w. (Inl ''no route'' :: string + unit, w)"
       and s = "\<lparr>core_state = (), rays_made = 0, workers = []\<rparr>"]
  from w1 a w2 b show ?thesis by simp
qed

section \<open>Properties of the mux client\<close>

text \<open>The invariant of a client: the live sessions are within the concurrency limit and
  within the number of sessions ever allocated, which is within \<open>maxTotal\<close>.\<close>

lemma Client_Dispatch_concurrency:
  "concurrency (snd (Client_Dispatch m)) = concurrency m"
  by (simp add: Client_Dispatch_def Allocate_def Let_def)

lemma client_step_concurrency: "concurrency (client_step m ev) = concurrency m"
  by (cases ev) (simp_all add: Client_Dispatch_concurrency CloseIfNoSession_def)

lemma Client_Dispatch_bounds:
  assumes "Size (sessionManager m) \<le> unat (concurrency m)"
    and "Size (sessionManager m) \<le> Count (sessionManager m)"
    and "Count (sessionManager m) \<le> maxTotal"
  shows "Size (sessionManager (snd (Client_Dispatch m))) \<le> unat (concurrency m)
       \<and> Size (sessionManager (snd (Client_Dispatch m)))
           \<le> Count (sessionManager (snd (Client_Dispatch m)))
       \<and> Count (sessionManager (snd (Client_Dispatch m))) \<le> maxTotal"
proof -
  have i: "length (List.insert x xs) \<le> Suc (length xs)" for x :: nat and xs
    by (simp add: List.insert_def)
  show ?thesis
    using assms i [of "Suc (count (sessionManager m))" "sessions (sessionManager m)"]
    by (auto simp add: Client_Dispatch_def Allocate_def Let_def Size_def Count_def)
qed

lemma client_step_bounds:
  assumes "Size (sessionManager m) \<le> unat (concurrency m)"
    and "Size (sessionManager m) \<le> Count (sessionManager m)"
    and "Count (sessionManager m) \<le> maxTotal"
  shows "Size (sessionManager (client_step m ev)) \<le> unat (concurrency m)
       \<and> Size (sessionManager (client_step m ev)) \<le> Count (sessionManager (client_step m ev))
       \<and> Count (sessionManager (client_step m ev)) \<le> maxTotal"
proof (cases ev)
  case EvDispatch
  then show ?thesis using Client_Dispatch_bounds [OF assms] by simp
next
  case (EvSessionClose sid)
  have "length (removeAll sid (sessions (sessionManager m))) \<le> n"
    if "length (sessions (sessionManager m)) \<le> n" for n
    using that by (meson order_trans length_removeAll_less_eq)
  then show ?thesis using assms EvSessionClose by (simp add: Remove_def Size_def Count_def)
next
  case EvDoneClose
  then show ?thesis using assms by simp
next
  case EvMonitorTick
  then show ?thesis using assms by (simp add: CloseIfNoSession_def Size_def Count_def)
next
  case EvMonitorDone
  then show ?thesis using assms by (simp add: SessionManager_Close_def Size_def Count_def)
qed

lemma client_run_bounds:
  assumes "Size (sessionManager m) \<le> unat (concurrency m)"
    and "Size (sessionManager m) \<le> Count (sessionManager m)"
    and "Count (sessionManager m) \<le> maxTotal"
  shows "Size (sessionManager (client_run m evs)) \<le> unat (concurrency m)
       \<and> Size (sessionManager (client_run m evs)) \<le> Count (sessionManager (client_run m evs))
       \<and> Count (sessionManager (client_run m evs)) \<le> maxTotal"
  using assms
proof (induction evs arbitrary: m)
  case Nil
  then show ?case by (simp add: client_run_def)
next
  case (Cons ev evs)
  have s: "Size (sessionManager (client_step m ev)) \<le> unat (concurrency (client_step m ev))
       \<and> Size (sessionManager (client_step m ev)) \<le> Count (sessionManager (client_step m ev))
       \<and> Count (sessionManager (client_step m ev)) \<le> maxTotal"
    using client_step_bounds [OF Cons.prems, of ev] by (simp add: client_step_concurrency)
  have "client_run m (ev # evs) = client_run (client_step m ev) evs"
    by (simp add: client_run_def)
  then show ?case
    using Cons.IH [of "client_step m ev"] s by (simp add: client_step_concurrency)
qed

text \<open>
  Claim C3. \<open>Client.Dispatch\<close> declines (returns \<open>false\<close>, changing nothing) whenever
  the session manager's size has reached the configured concurrency, or its count of
  sessions ever allocated has reached \<open>maxTotal = 128\<close>, or the \<open>done\<close> latch is set.
  Consequently, after any sequence of dispatches, session closes, latch closes and
  monitor steps on a new client, the size is at most \<open>min(Concurrency, maxTotal)\<close> and the
  count at most \<open>maxTotal\<close>.
\<close>

theorem Client_Dispatch_declines:
  "((Size (sessionManager m) \<ge> unat (concurrency m) \<or> Count (sessionManager m) \<ge> maxTotal
      \<or> done_latch m) \<longrightarrow> Client_Dispatch m = (False, m))
   \<and> maxTotal = 128
   \<and> Size (sessionManager (client_run (NewClient c) evs)) \<le> min (unat c) maxTotal
   \<and> Count (sessionManager (client_run (NewClient c) evs)) \<le> maxTotal"
proof -
  have a: "Client_Dispatch m = (False, m)"
    if "Size (sessionManager m) \<ge> unat (concurrency m) \<or> Count (sessionManager m) \<ge> maxTotal
        \<or> done_latch m"
    using that by (auto simp add: Client_Dispatch_def Let_def)
  have i: "Size (sessionManager (NewClient c)) \<le> unat (concurrency (NewClient c))"
    "Size (sessionManager (NewClient c)) \<le> Count (sessionManager (NewClient c))"
    "Count (sessionManager (NewClient c)) \<le> maxTotal"
    by (simp_all add: NewClient_def NewSessionManager_def Size_def Count_def)
  have b: "Size (sessionManager (client_run (NewClient c) evs)) \<le> min (unat c) maxTotal
     \<and> Count (sessionManager (client_run (NewClient c) evs)) \<le> maxTotal"
    using client_run_bounds [OF i, of evs] by (simp add: NewClient_def)
  from a b show ?thesis by (simp add: maxTotal_def)
qed

theorem Client_Dispatch_declines_witness:
  "Client_Dispatch
     \<lparr>sessionManager = \<lparr>sessions = [1, 2], count = 2, closed = False\<rparr>,
      done_latch = False, concurrency = 2\<rparr>
   = (False, \<lparr>sessionManager = \<lparr>sessions = [1, 2], count = 2, closed = False\<rparr>,
      done_latch = False, concurrency = 2\<rparr>)
   \<and> Size (sessionManager (client_run (NewClient 2) [EvDispatch, EvDispatch, EvDispatch])) = 2"
proof -
  let ?m = "\<lparr>sessionManager = \<lparr>sessions = [1, 2], count = 2, closed = False\<rparr>,
      done_latch = False, concurrency = 2 :: 32 word\<rparr>"
  have h: "Size (sessionManager ?m) \<ge> unat (concurrency ?m)"
    by (simp add: Size_def)
  have a: "Client_Dispatch ?m = (False, ?m)"
    using Client_Dispatch_declines [of ?m] h by blast
  have b: "Size (sessionManager (client_run (NewClient 2) [EvDispatch, EvDispatch, EvDispatch])) = 2"
    by (simp add: client_run_def NewClient_def NewSessionManager_def Client_Dispatch_def
        Allocate_def Size_def Count_def maxTotal_def Let_def)
  from a b show ?thesis by simp
qed

section \<open>Properties of the Shadowsocks request codec\<close>

lemma ReadFull_one:
  "pending r = b0 # rest \<Longrightarrow> ReadFull r 1 = (Inr [b0], r\<lparr>pending := rest\<rparr>)"
  by (simp add: ReadFull_def)

lemma BytesFrom_suffix:
  "ys \<noteq> [] \<Longrightarrow> BytesFrom (xs @ ys) (- int (length ys)) = ys"
  by (simp add: BytesFrom_def)

lemma Has_flag_set: "Has (Set_flag 0 RequestOptionOneTimeAuth) RequestOptionOneTimeAuth"
  by (simp add: Has_def Set_flag_def RequestOptionOneTimeAuth_def)

lemma Has_flag_or: "Has (0 OR RequestOptionOneTimeAuth) RequestOptionOneTimeAuth"
  by (simp add: Has_def RequestOptionOneTimeAuth_def)

lemma Has_flag_clear: "\<not> Has 0 RequestOptionOneTimeAuth"
  by (simp add: Has_def)

lemma read_request_option:
  "read_request ota account iv request buffer br = Inr (request', pr) \<Longrightarrow>
   req_Option request' = req_Option request"
  by (auto simp add: read_request_def Let_def split: sum.splits prod.splits if_splits)

text \<open>The request as it stands after the first header byte \<open>b0\<close> of a TCP session.\<close>

lemma ReadTCPSession_header:
  assumes "Account user = Inr account"
    and "(if IVSize (Cipher account) > 0 then ReadFull rd (IVSize (Cipher account))
          else (Inr [], rd)) = (Inr iv, rd1)"
    and "NewDecryptionReader (Cipher account) (Key account) iv rd1 = Inr r"
    and "pending r = b0 # rest"
  shows "ReadTCPSession ota user rd =
     (let flag = (\<not> IsAEAD (Cipher account) \<and> b0 AND 0x10 = 0x10);
          request1 = \<lparr>req_Version = Version, req_User = user, req_Command = RequestCommandTCP,
                      req_Address = None, req_Port = 0,
                      req_Option = (if flag then Set_flag 0 RequestOptionOneTimeAuth else 0)\<rparr>
      in if flag \<and> OneTimeAuth account = Account_Disabled
         then Inl (NewError
           ''rejecting connection with OTA enabled, while server disables OTA'' None)
         else if \<not> IsAEAD (Cipher account) \<and> \<not> flag \<and> OneTimeAuth account = Account_Enabled
         then Inl (NewError
           ''rejecting connection with OTA disabled, while server enables OTA'' None)
         else read_request ota account iv request1 [b0] (r\<lparr>pending := rest\<rparr>))"
proof -
  have rf: "ReadFull r 1 = (Inr [b0], r\<lparr>pending := rest\<rparr>)"
    using assms(4) by (rule ReadFull_one)
  show ?thesis
    unfolding ReadTCPSession_def GetTypedAccount_def assms(1) sum.case assms(2) prod.case
      assms(3) rf Let_def
    using Has_flag_set Has_flag_clear by auto
qed

lemma ReadTCPSession_accepted_option:
  assumes "ReadTCPSession ota user rd = Inr (request, pr)"
    and "Account user = Inr account"
    and "\<not> IsAEAD (Cipher account)"
  shows "(OneTimeAuth account = Account_Enabled \<longrightarrow>
            Has (req_Option request) RequestOptionOneTimeAuth)
       \<and> (OneTimeAuth account = Account_Disabled \<longrightarrow>
            \<not> Has (req_Option request) RequestOptionOneTimeAuth)"
proof -
  obtain res rd1 where iv: "(if IVSize (Cipher account) > 0
      then ReadFull rd (IVSize (Cipher account)) else (Inr [], rd)) = (res, rd1)"
    by (cases "if IVSize (Cipher account) > 0
      then ReadFull rd (IVSize (Cipher account)) else (Inr [], rd)")
  from assms(1) obtain iv where res: "res = Inr iv"
    unfolding ReadTCPSession_def GetTypedAccount_def assms(2) sum.case iv prod.case
    by (cases res) simp_all
  from assms(1) obtain r where r: "NewDecryptionReader (Cipher account) (Key account) iv rd1 = Inr r"
    unfolding ReadTCPSession_def GetTypedAccount_def assms(2) sum.case iv prod.case res
    by (cases "NewDecryptionReader (Cipher account) (Key account) iv rd1") simp_all
  have "pending r \<noteq> []"
  proof
    assume "pending r = []"
    then have "fst (ReadFull r 1) = Inl (final r)" by (simp add: ReadFull_def)
    then show False
      using assms(1)
      unfolding ReadTCPSession_def GetTypedAccount_def assms(2) sum.case iv prod.case res r
      by (cases "ReadFull r 1") simp
  qed
  then obtain b0 rest where p: "pending r = b0 # rest" by (cases "pending r") simp_all
  note h = ReadTCPSession_header [OF assms(2) iv [unfolded res] r p, of ota]
  show ?thesis
  proof (cases "b0 AND 0x10 = 0x10")
    case True
    with h assms(1,3) have nd: "OneTimeAuth account \<noteq> Account_Disabled"
      by (auto simp add: Let_def)
    with h assms(1,3) True have "read_request ota account iv
        \<lparr>req_Version = Version, req_User = user, req_Command = RequestCommandTCP,
         req_Address = None, req_Port = 0,
         req_Option = Set_flag 0 RequestOptionOneTimeAuth\<rparr> [b0] (r\<lparr>pending := rest\<rparr>)
        = Inr (request, pr)"
      by (simp add: Let_def)
    then have "req_Option request = Set_flag 0 RequestOptionOneTimeAuth"
      using read_request_option by fastforce
    then show ?thesis using nd Has_flag_set by simp
  next
    case False
    with h assms(1,3) have ne: "OneTimeAuth account \<noteq> Account_Enabled"
      by (auto simp add: Let_def)
    with h assms(1,3) False have "read_request ota account iv
        \<lparr>req_Version = Version, req_User = user, req_Command = RequestCommandTCP,
         req_Address = None, req_Port = 0, req_Option = 0\<rparr> [b0] (r\<lparr>pending := rest\<rparr>)
        = Inr (request, pr)"
      by (simp add: Let_def)
    then have "req_Option request = 0"
      using read_request_option by fastforce
    then show ?thesis using ne Has_flag_clear by simp
  qed
qed

lemma decode_request_option:
  "decode_request request payload = Inr (request', data) \<Longrightarrow>
   req_Option request' = req_Option request"
  by (auto simp add: decode_request_def split: sum.splits prod.splits)

lemma DecodeUDPPacket_accepted_option:
  assumes "DecodeUDPPacket ota user payload = Inr (request, data)"
    and "Account user = Inr account"
    and "\<not> IsAEAD (Cipher account)"
  shows "(OneTimeAuth account = Account_Enabled \<longrightarrow>
            Has (req_Option request) RequestOptionOneTimeAuth)
       \<and> (OneTimeAuth account = Account_Disabled \<longrightarrow>
            \<not> Has (req_Option request) RequestOptionOneTimeAuth)"
proof -
  let ?request = "\<lparr>req_Version = Version, req_User = user, req_Command = RequestCommandUDP,
      req_Address = None, req_Port = 0, req_Option = 0\<rparr>"
  from assms obtain iv payload1 b0 where
    b0: "Buffer_Byte payload1 0 = Inr b0"
    and r: "(let request1 = (if b0 AND 0x10 = 0x10
                then ?request\<lparr>req_Option := req_Option ?request OR RequestOptionOneTimeAuth\<rparr>
                else ?request)
             in if Has (req_Option request1) RequestOptionOneTimeAuth
                   \<and> OneTimeAuth account = Account_Disabled
                then Inl (NewError
                  ''rejecting packet with OTA enabled, while server disables OTA'' None)
                else if \<not> Has (req_Option request1) RequestOptionOneTimeAuth
                   \<and> OneTimeAuth account = Account_Enabled
                then Inl (NewError
                  ''rejecting packet with OTA disabled, while server enables OTA'' None)
                else if Has (req_Option request1) RequestOptionOneTimeAuth
                then (case verify_ota ota account iv payload1 of
                        Inl err \<Rightarrow> Inl err
                      | Inr payload2 \<Rightarrow> decode_request request1 payload2)
                else decode_request request1 payload1) = Inr (request, data)"
    unfolding DecodeUDPPacket_def GetTypedAccount_def
    by (auto simp add: Let_def split: sum.splits if_splits)
  show ?thesis
  proof (cases "b0 AND 0x10 = 0x10")
    case True
    with r Has_flag_or have nd: "OneTimeAuth account \<noteq> Account_Disabled"
      by (auto simp add: Let_def)
    from r True Has_flag_or nd obtain payload2 where
      "decode_request (?request\<lparr>req_Option := 0 OR RequestOptionOneTimeAuth\<rparr>) payload2
         = Inr (request, data)"
      by (auto simp add: Let_def split: sum.splits)
    then have "req_Option request = 0 OR RequestOptionOneTimeAuth"
      using decode_request_option by fastforce
    then show ?thesis using nd Has_flag_or by simp
  next
    case False
    with r Has_flag_clear have ne: "OneTimeAuth account \<noteq> Account_Enabled"
      by (auto simp add: Let_def)
    from r False Has_flag_clear ne have
      "decode_request ?request payload1 = Inr (request, data)"
      by (auto simp add: Let_def)
    then have "req_Option request = 0"
      using decode_request_option by fastforce
    then show ?thesis using ne Has_flag_clear by simp
  qed
qed

lemma DecodeUDPPacket_conflict:
  assumes "Account user = Inr account"
    and "\<not> IsAEAD (Cipher account)"
    and "(if \<not> IsAEAD (Cipher account) \<and> IVSize (Cipher account) > 0
          then Buffer_BytesTo payload (int (IVSize (Cipher account)))
          else Inr []) = Inr iv"
    and "DecodePacket (Cipher account) (Key account) payload = Inr payload1"
    and "Buffer_Byte payload1 0 = Inr b0"
  shows "(b0 AND 0x10 = 0x10 \<and> OneTimeAuth account = Account_Disabled \<longrightarrow>
            DecodeUDPPacket ota user payload
              = Inl (NewError ''rejecting packet with OTA enabled, while server disables OTA''
                       None))
       \<and> (b0 AND 0x10 \<noteq> 0x10 \<and> OneTimeAuth account = Account_Enabled \<longrightarrow>
            DecodeUDPPacket ota user payload
              = Inl (NewError ''rejecting packet with OTA disabled, while server enables OTA''
                       None))"
  using Has_flag_or Has_flag_clear assms(2)
  unfolding DecodeUDPPacket_def GetTypedAccount_def assms(1) sum.case assms(3) assms(4)
    assms(5) Let_def
  by auto

text \<open>
  Claim C6. For an account whose cipher is not AEAD: a request that \<open>ReadTCPSession\<close>
  returns has the \<open>OneTimeAuth\<close> option set when the account has one-time
  authentication enabled, and clear when the account has it disabled; and a session
  whose first header byte carries the option bit \<open>0x10\<close> against a disabling account,
  or lacks it against an enabling account, is rejected with the corresponding error.
  The same holds for \<open>DecodeUDPPacket\<close>, for every buffer it returns a request for,
  and the byte at the start of the decrypted buffer.
\<close>

theorem OneTimeAuth_policy:
  "(Account user = Inr account \<and> \<not> IsAEAD (Cipher account)
      \<and> ReadTCPSession ota user rd = Inr (request, pr) \<longrightarrow>
        (OneTimeAuth account = Account_Enabled \<longrightarrow>
           Has (req_Option request) RequestOptionOneTimeAuth)
      \<and> (OneTimeAuth account = Account_Disabled \<longrightarrow>
           \<not> Has (req_Option request) RequestOptionOneTimeAuth))
   \<and> (Account user = Inr account \<and> \<not> IsAEAD (Cipher account)
      \<and> (if IVSize (Cipher account) > 0 then ReadFull rd (IVSize (Cipher account))
          else (Inr [], rd)) = (Inr iv, rd1)
      \<and> NewDecryptionReader (Cipher account) (Key account) iv rd1 = Inr r
      \<and> pending r = b0 # rest \<longrightarrow>
        (b0 AND 0x10 = 0x10 \<and> OneTimeAuth account = Account_Disabled \<longrightarrow>
           ReadTCPSession ota user rd
             = Inl (NewError ''rejecting connection with OTA enabled, while server disables OTA''
                      None))
      \<and> (b0 AND 0x10 \<noteq> 0x10 \<and> OneTimeAuth account = Account_Enabled \<longrightarrow>
           ReadTCPSession ota user rd
             = Inl (NewError ''rejecting connection with OTA disabled, while server enables OTA''
                      None)))
   \<and> (Account user = Inr account \<and> \<not> IsAEAD (Cipher account)
      \<and> DecodeUDPPacket ota user payload = Inr (request', data) \<longrightarrow>
        (OneTimeAuth account = Account_Enabled \<longrightarrow>
           Has (req_Option request') RequestOptionOneTimeAuth)
      \<and> (OneTimeAuth account = Account_Disabled \<longrightarrow>
           \<not> Has (req_Option request') RequestOptionOneTimeAuth))
   \<and> (Account user = Inr account \<and> \<not> IsAEAD (Cipher account)
      \<and> (if \<not> IsAEAD (Cipher account) \<and> IVSize (Cipher account) > 0
          then Buffer_BytesTo payload (int (IVSize (Cipher account)))
          else Inr []) = Inr uiv
      \<and> DecodePacket (Cipher account) (Key account) payload = Inr payload1
      \<and> Buffer_Byte payload1 0 = Inr c0 \<longrightarrow>
        (c0 AND 0x10 = 0x10 \<and> OneTimeAuth account = Account_Disabled \<longrightarrow>
           DecodeUDPPacket ota user payload
             = Inl (NewError ''rejecting packet with OTA enabled, while server disables OTA''
                      None))
      \<and> (c0 AND 0x10 \<noteq> 0x10 \<and> OneTimeAuth account = Account_Enabled \<longrightarrow>
           DecodeUDPPacket ota user payload
             = Inl (NewError ''rejecting packet with OTA disabled, while server enables OTA''
                      None)))"
proof -
  have tcp_conflict:
    "(b0 AND 0x10 = 0x10 \<and> OneTimeAuth account = Account_Disabled \<longrightarrow>
           ReadTCPSession ota user rd
             = Inl (NewError ''rejecting connection with OTA enabled, while server disables OTA''
                      None))
      \<and> (b0 AND 0x10 \<noteq> 0x10 \<and> OneTimeAuth account = Account_Enabled \<longrightarrow>
           ReadTCPSession ota user rd
             = Inl (NewError ''rejecting connection with OTA disabled, while server enables OTA''
                      None))"
    if "Account user = Inr account" "\<not> IsAEAD (Cipher account)"
      "(if IVSize (Cipher account) > 0 then ReadFull rd (IVSize (Cipher account))
          else (Inr [], rd)) = (Inr iv, rd1)"
      "NewDecryptionReader (Cipher account) (Key account) iv rd1 = Inr r"
      "pending r = b0 # rest"
    using ReadTCPSession_header [OF that(1,3,4,5), of ota] that(2)
    by (simp add: Let_def)
  show ?thesis
    using ReadTCPSession_accepted_option [of ota user rd request pr account]
      tcp_conflict
      DecodeUDPPacket_accepted_option [of ota user payload request' data account]
      DecodeUDPPacket_conflict [of user account payload uiv payload1 c0 ota]
    by blast
qed

theorem OneTimeAuth_policy_witness:
  "let ota = \<lparr>AuthSize = 2, HeaderAuth = (\<lambda>key iv data. [0xA0, 0xA1])\<rparr>;
       c = \<lparr>IVSize = 2, IsAEAD = False, NewDecryptionReader = (\<lambda>key iv rd. Inr rd),
            DecodePacket = (\<lambda>key b. Inr (b\<lparr>buf_start := buf_start b + 2\<rparr>))\<rparr>;
       u = (\<lambda>policy. \<lparr>Email = ''u'',
              Account = Inr \<lparr>Cipher = c, Key = [7], OneTimeAuth = policy\<rparr>\<rparr>);
       pkt = (\<lambda>v n. \<lparr>buf_v = v, buf_start = 0, buf_end = n\<rparr>)
   in ReadTCPSession ota (u Account_Disabled)
        \<lparr>pending = [9, 9, 0x11, 1, 2, 3, 4, 0, 80, 0xA0, 0xA1], final = EOF\<rparr>
        = Inl (NewError ''rejecting connection with OTA enabled, while server disables OTA''
                 None)
      \<and> \<not> Has (req_Option (fst (projr (ReadTCPSession ota (u Account_Disabled)
            \<lparr>pending = [9, 9, 0x01, 1, 2, 3, 4, 0, 80, 0xDD], final = EOF\<rparr>))))
          RequestOptionOneTimeAuth
      \<and> DecodeUDPPacket ota (u Account_Disabled)
          (pkt [9, 9, 0x11, 1, 2, 3, 4, 0, 80, 0xA0, 0xA1] 11)
        = Inl (NewError ''rejecting packet with OTA enabled, while server disables OTA'' None)
      \<and> DecodeUDPPacket ota (u Account_Enabled)
          (pkt [9, 9, 0x11, 1, 2, 3, 4, 0, 80, 0xDD, 0xA0, 0xA1] 12)
        = Inr (\<lparr>req_Version = 1, req_User = u Account_Enabled,
                req_Command = RequestCommandUDP,
                req_Address = Some (IPv4Address [1, 2, 3, 4]), req_Port = 80,
                req_Option = 1\<rparr>,
               \<lparr>buf_v = [9, 9, 0x11, 1, 2, 3, 4, 0, 80, 0xDD, 0xA0, 0xA1],
                buf_start = 9, buf_end = 10\<rparr>)
      \<and> Has (req_Option (fst (projr (DecodeUDPPacket ota (u Account_Enabled)
            (pkt [9, 9, 0x11, 1, 2, 3, 4, 0, 80, 0xDD, 0xA0, 0xA1] 12)))))
          RequestOptionOneTimeAuth
      \<and> DecodeUDPPacket ota (u Account_Disabled) (pkt [9, 9, 0x01, 1, 2, 3, 4, 0, 80, 7] 6)
        = Inr (\<lparr>req_Version = 1, req_User = u Account_Disabled,
                req_Command = RequestCommandUDP,
                req_Address = Some (IPv4Address [1, 2, 3, 4]), req_Port = 80,
                req_Option = 0\<rparr>,
               \<lparr>buf_v = [9, 9, 0x01, 1, 2, 3, 4, 0, 80, 7], buf_start = 9, buf_end = 6\<rparr>)
      \<and> \<not> Has (req_Option (fst (projr (DecodeUDPPacket ota (u Account_Disabled)
            (pkt [9, 9, 0x01, 1, 2, 3, 4, 0, 80, 7] 6)))))
          RequestOptionOneTimeAuth"
proof -
  define ota :: OneTimeAuth_params where
    "ota = \<lparr>AuthSize = 2, HeaderAuth = (\<lambda>key iv data. [0xA0, 0xA1])\<rparr>"
  define c :: Cipher where
    "c = \<lparr>IVSize = 2, IsAEAD = False, NewDecryptionReader = (\<lambda>key iv rd. Inr rd),
          DecodePacket = (\<lambda>key b. Inr (b\<lparr>buf_start := buf_start b + 2\<rparr>))\<rparr>"
  define acc :: "Account_OneTimeAuth \<Rightarrow> MemoryAccount" where
    "acc = (\<lambda>policy. \<lparr>Cipher = c, Key = [7], OneTimeAuth = policy\<rparr>)"
  define u :: "Account_OneTimeAuth \<Rightarrow> User" where
    "u = (\<lambda>policy. \<lparr>Email = ''u'', Account = Inr (acc policy)\<rparr>)"
  define pkt :: "byte list \<Rightarrow> int \<Rightarrow> Buffer" where
    "pkt = (\<lambda>v n. \<lparr>buf_v = v, buf_start = 0, buf_end = n\<rparr>)"
  define rd :: io_Reader where
    "rd = \<lparr>pending = [9, 9, 0x11, 1, 2, 3, 4, 0, 80, 0xA0, 0xA1], final = EOF\<rparr>"
  define rd_ok :: io_Reader where
    "rd_ok = \<lparr>pending = [9, 9, 0x01, 1, 2, 3, 4, 0, 80, 0xDD], final = EOF\<rparr>"
  have k: "Account (u policy) = Inr (acc policy)" "\<not> IsAEAD (Cipher (acc policy))"
    "OneTimeAuth (acc policy) = policy" for policy
    by (simp_all add: u_def acc_def c_def)
  have h: "(if IVSize (Cipher (acc policy)) > 0 then ReadFull rd (IVSize (Cipher (acc policy)))
            else (Inr [], rd))
       = (Inr [9, 9], rd\<lparr>pending := [0x11, 1, 2, 3, 4, 0, 80, 0xA0, 0xA1]\<rparr>)"
    "NewDecryptionReader (Cipher (acc policy)) (Key (acc policy)) [9, 9]
       (rd\<lparr>pending := [0x11, 1, 2, 3, 4, 0, 80, 0xA0, 0xA1]\<rparr>)
       = Inr (rd\<lparr>pending := [0x11, 1, 2, 3, 4, 0, 80, 0xA0, 0xA1]\<rparr>)"
    for policy
    by (simp_all add: acc_def c_def rd_def ReadFull_def)
  have h': "pending (rd\<lparr>pending := [0x11, 1, 2, 3, 4, 0, 80, 0xA0, 0xA1]\<rparr>)
       = 0x11 # [1, 2, 3, 4, 0, 80, 0xA0, 0xA1]"
    "(0x11 :: byte) AND 0x10 = 0x10"
    by simp_all
  have g: "(if \<not> IsAEAD (Cipher (acc policy)) \<and> IVSize (Cipher (acc policy)) > 0
            then Buffer_BytesTo (pkt [9, 9, 0x11, 1, 2, 3, 4, 0, 80, 0xA0, 0xA1] 11)
                   (int (IVSize (Cipher (acc policy))))
            else Inr []) = Inr [9, 9]"
    "DecodePacket (Cipher (acc policy)) (Key (acc policy))
        (pkt [9, 9, 0x11, 1, 2, 3, 4, 0, 80, 0xA0, 0xA1] 11)
       = Inr ((pkt [9, 9, 0x11, 1, 2, 3, 4, 0, 80, 0xA0, 0xA1] 11)\<lparr>buf_start := 2\<rparr>)"
    for policy
    by (simp_all add: acc_def c_def pkt_def Buffer_BytesTo_def go_slice_def Let_def)
  have g': "Buffer_Byte ((pkt [9, 9, 0x11, 1, 2, 3, 4, 0, 80, 0xA0, 0xA1] 11)\<lparr>buf_start := 2\<rparr>) 0
       = Inr 0x11"
    by (simp add: pkt_def Buffer_Byte_def go_index_def)
  have a: "ReadTCPSession ota (u Account_Disabled) rd
     = Inl (NewError ''rejecting connection with OTA enabled, while server disables OTA'' None)"
    using OneTimeAuth_policy [where user = "u Account_Disabled"
        and account = "acc Account_Disabled" and rd = rd and ota = ota and iv = "[9, 9]"
        and ?rd1.0 = "rd\<lparr>pending := [0x11, 1, 2, 3, 4, 0, 80, 0xA0, 0xA1]\<rparr>"
        and r = "rd\<lparr>pending := [0x11, 1, 2, 3, 4, 0, 80, 0xA0, 0xA1]\<rparr>"
        and ?b0.0 = "0x11" and rest = "[1, 2, 3, 4, 0, 80, 0xA0, 0xA1]"]
      k [of Account_Disabled] h [of Account_Disabled] h'
    by blast
  have b: "DecodeUDPPacket ota (u Account_Disabled)
        (pkt [9, 9, 0x11, 1, 2, 3, 4, 0, 80, 0xA0, 0xA1] 11)
     = Inl (NewError ''rejecting packet with OTA enabled, while server disables OTA'' None)"
    using OneTimeAuth_policy [where user = "u Account_Disabled"
        and account = "acc Account_Disabled" and ota = ota
        and payload = "pkt [9, 9, 0x11, 1, 2, 3, 4, 0, 80, 0xA0, 0xA1] 11"
        and uiv = "[9, 9]"
        and ?payload1.0 = "(pkt [9, 9, 0x11, 1, 2, 3, 4, 0, 80, 0xA0, 0xA1] 11)\<lparr>buf_start := 2\<rparr>"
        and ?c0.0 = "0x11"]
      k [of Account_Disabled] g [of Account_Disabled] g' h'(2)
    by blast
  have tcp_ok: "ReadTCPSession ota (u Account_Disabled) rd_ok
     = Inr (\<lparr>req_Version = 1, req_User = u Account_Disabled, req_Command = RequestCommandTCP,
             req_Address = Some (IPv4Address [1, 2, 3, 4]), req_Port = 80, req_Option = 0\<rparr>,
            PlainReader \<lparr>pending = [0xDD], final = EOF\<rparr>)"
    by (simp add: ota_def u_def acc_def c_def rd_ok_def
        ReadTCPSession_def GetTypedAccount_def ReadFull_def read_request_def
        read_address_def IPAddress_def BytesFrom_def PortFromBytes_def Has_def Set_flag_def
        RequestOptionOneTimeAuth_def AddrTypeIPv4_def AddrTypeIPv6_def AddrTypeDomain_def
        Version_def Let_def)
  have udp_ok: "DecodeUDPPacket ota (u Account_Enabled)
        (pkt [9, 9, 0x11, 1, 2, 3, 4, 0, 80, 0xDD, 0xA0, 0xA1] 12)
     = Inr (\<lparr>req_Version = 1, req_User = u Account_Enabled, req_Command = RequestCommandUDP,
             req_Address = Some (IPv4Address [1, 2, 3, 4]), req_Port = 80, req_Option = 1\<rparr>,
            \<lparr>buf_v = [9, 9, 0x11, 1, 2, 3, 4, 0, 80, 0xDD, 0xA0, 0xA1],
             buf_start = 9, buf_end = 10\<rparr>)"
    by (simp add: ota_def u_def acc_def c_def pkt_def
        DecodeUDPPacket_def GetTypedAccount_def decode_request_def decode_address_def
        verify_ota_def Buffer_BytesTo_def Buffer_BytesFrom_def Buffer_Byte_def
        Buffer_Slice_def Buffer_SliceFrom_def Buffer_Len_def go_slice_def go_index_def
        IPAddress_def PortFromBytes_def Has_def
        RequestOptionOneTimeAuth_def AddrTypeIPv4_def AddrTypeIPv6_def AddrTypeDomain_def
        Version_def Let_def)
  have udp_short: "DecodeUDPPacket ota (u Account_Disabled)
        (pkt [9, 9, 0x01, 1, 2, 3, 4, 0, 80, 7] 6)
     = Inr (\<lparr>req_Version = 1, req_User = u Account_Disabled, req_Command = RequestCommandUDP,
             req_Address = Some (IPv4Address [1, 2, 3, 4]), req_Port = 80, req_Option = 0\<rparr>,
            \<lparr>buf_v = [9, 9, 0x01, 1, 2, 3, 4, 0, 80, 7], buf_start = 9, buf_end = 6\<rparr>)"
    by (simp add: ota_def u_def acc_def c_def pkt_def
        DecodeUDPPacket_def GetTypedAccount_def decode_request_def decode_address_def
        verify_ota_def Buffer_BytesTo_def Buffer_BytesFrom_def Buffer_Byte_def
        Buffer_Slice_def Buffer_SliceFrom_def Buffer_Len_def go_slice_def go_index_def
        IPAddress_def PortFromBytes_def Has_def
        RequestOptionOneTimeAuth_def AddrTypeIPv4_def AddrTypeIPv6_def AddrTypeDomain_def
        Version_def Let_def)
  have d: "\<not> Has (req_Option (fst (projr (ReadTCPSession ota (u Account_Disabled) rd_ok))))
      RequestOptionOneTimeAuth"
    using OneTimeAuth_policy [where user = "u Account_Disabled"
        and account = "acc Account_Disabled" and rd = rd_ok and ota = ota
        and request = "fst (projr (ReadTCPSession ota (u Account_Disabled) rd_ok))"
        and pr = "snd (projr (ReadTCPSession ota (u Account_Disabled) rd_ok))"]
      k [of Account_Disabled] tcp_ok by simp
  have e: "Has (req_Option (fst (projr (DecodeUDPPacket ota (u Account_Enabled)
        (pkt [9, 9, 0x11, 1, 2, 3, 4, 0, 80, 0xDD, 0xA0, 0xA1] 12)))))
      RequestOptionOneTimeAuth"
    using OneTimeAuth_policy [where user = "u Account_Enabled"
        and account = "acc Account_Enabled" and ota = ota
        and payload = "pkt [9, 9, 0x11, 1, 2, 3, 4, 0, 80, 0xDD, 0xA0, 0xA1] 12"
        and request' = "fst (projr (DecodeUDPPacket ota (u Account_Enabled)
            (pkt [9, 9, 0x11, 1, 2, 3, 4, 0, 80, 0xDD, 0xA0, 0xA1] 12)))"
        and data = "snd (projr (DecodeUDPPacket ota (u Account_Enabled)
            (pkt [9, 9, 0x11, 1, 2, 3, 4, 0, 80, 0xDD, 0xA0, 0xA1] 12)))"]
      k [of Account_Enabled] udp_ok by simp
  have f: "\<not> Has (req_Option (fst (projr (DecodeUDPPacket ota (u Account_Disabled)
        (pkt [9, 9, 0x01, 1, 2, 3, 4, 0, 80, 7] 6)))))
      RequestOptionOneTimeAuth"
    using OneTimeAuth_policy [where user = "u Account_Disabled"
        and account = "acc Account_Disabled" and ota = ota
        and payload = "pkt [9, 9, 0x01, 1, 2, 3, 4, 0, 80, 7] 6"
        and request' = "fst (projr (DecodeUDPPacket ota (u Account_Disabled)
            (pkt [9, 9, 0x01, 1, 2, 3, 4, 0, 80, 7] 6)))"
        and data = "snd (projr (DecodeUDPPacket ota (u Account_Disabled)
            (pkt [9, 9, 0x01, 1, 2, 3, 4, 0, 80, 7] 6)))"]
      k [of Account_Disabled] udp_short by simp
  from a b d e f udp_ok udp_short show ?thesis
    unfolding Let_def rd_def rd_ok_def u_def acc_def
    by (simp add: ota_def c_def pkt_def)
qed

lemma read_address_other:
  assumes "t \<noteq> 1" and "t \<noteq> 3" and "t \<noteq> 4"
  shows "read_address t buffer br = Inr (None, buffer, br)"
  using assms
  by (simp add: read_address_def AddrTypeIPv4_def AddrTypeIPv6_def AddrTypeDomain_def)

lemma read_request_other:
  assumes "b0 AND 0x0F \<noteq> 1" and "b0 AND 0x0F \<noteq> 3" and "b0 AND 0x0F \<noteq> 4"
  shows "read_request ota account iv request [b0] br =
     (case ReadFull br 2 of
        (Inl err, br2) \<Rightarrow> Inl (NewError ''failed to read port'' (Some err))
      | (Inr pb, br2) \<Rightarrow>
          if Has (req_Option request) RequestOptionOneTimeAuth
          then (case ReadFull br2 (AuthSize ota) of
                  (Inl err, br3) \<Rightarrow> Inl (NewError ''Failed to read OTA'' (Some err))
                | (Inr mac, br3) \<Rightarrow>
                    if HeaderAuth ota (Key account) iv ([b0] @ pb)
                         \<noteq> BytesFrom (([b0] @ pb) @ mac) (- int (AuthSize ota))
                    then Inl (NewError ''invalid OTA'' None)
                    else Inl (NewError ''invalid remote address.'' None))
          else Inl (NewError ''invalid remote address.'' None))"
  unfolding read_request_def
  by (simp add: read_address_other [OF assms] Let_def split: prod.splits sum.splits)

lemma read_request_other_fails:
  assumes "b0 AND 0x0F \<noteq> 1" and "b0 AND 0x0F \<noteq> 3" and "b0 AND 0x0F \<noteq> 4"
  shows "isl (read_request ota account iv request [b0] br)"
  unfolding read_request_other [OF assms]
  by (simp split: prod.splits sum.splits)

text \<open>
  Claim C10. Take a TCP session that gets as far as its first header byte \<open>b0\<close> and
  passes the one-time-authentication policy, with an address-type nibble other than 1, 3
  and 4. Then \<open>ReadTCPSession\<close> returns an error in every case, never a request and a
  reader, and the address branch is not where it fails: it reads the two port bytes
  (a stream too short for them gives \<open>failed to read port\<close>); when the option is set it
  reads the MAC (too short a stream gives \<open>Failed to read OTA\<close>) and a MAC that does not
  match gives \<open>invalid OTA\<close>; and only with the port read, and the MAC read and matching
  when the option is set, is the error \<open>invalid remote address.\<close>
\<close>

theorem ReadTCPSession_invalid_address_type:
  assumes "Account user = Inr account"
    and "(if IVSize (Cipher account) > 0 then ReadFull rd (IVSize (Cipher account))
          else (Inr [], rd)) = (Inr iv, rd1)"
    and "NewDecryptionReader (Cipher account) (Key account) iv rd1 = Inr r"
    and "pending r = b0 # rest"
    and "b0 AND 0x0F \<noteq> 1" and "b0 AND 0x0F \<noteq> 3" and "b0 AND 0x0F \<noteq> 4"
    and "flag = (\<not> IsAEAD (Cipher account) \<and> b0 AND 0x10 = 0x10)"
    and "\<not> (flag \<and> OneTimeAuth account = Account_Disabled)"
    and "\<not> (\<not> IsAEAD (Cipher account) \<and> \<not> flag \<and> OneTimeAuth account = Account_Enabled)"
  shows "isl (ReadTCPSession ota user rd)
     \<and> (length rest < 2 \<longrightarrow>
          ReadTCPSession ota user rd
            = Inl (NewError ''failed to read port''
                     (Some (if final r = EOF \<and> rest \<noteq> [] then ErrUnexpectedEOF else final r))))
     \<and> (rest = p1 # p2 # rest2 \<and> \<not> flag \<longrightarrow>
          ReadTCPSession ota user rd = Inl (NewError ''invalid remote address.'' None))
     \<and> (rest = p1 # p2 # rest2 \<and> flag \<and> length rest2 < AuthSize ota \<longrightarrow>
          ReadTCPSession ota user rd
            = Inl (NewError ''Failed to read OTA''
                     (Some (if final r = EOF \<and> rest2 \<noteq> [] then ErrUnexpectedEOF else final r))))
     \<and> (rest = p1 # p2 # mac @ rest3 \<and> flag \<and> length mac = AuthSize ota \<and> mac \<noteq> []
          \<and> mac \<noteq> HeaderAuth ota (Key account) iv [b0, p1, p2] \<longrightarrow>
          ReadTCPSession ota user rd = Inl (NewError ''invalid OTA'' None))
     \<and> (rest = p1 # p2 # mac @ rest3 \<and> flag \<and> length mac = AuthSize ota \<and> mac \<noteq> []
          \<and> mac = HeaderAuth ota (Key account) iv [b0, p1, p2] \<longrightarrow>
          ReadTCPSession ota user rd = Inl (NewError ''invalid remote address.'' None))"
proof -
  let ?request1 = "\<lparr>req_Version = Version, req_User = user, req_Command = RequestCommandTCP,
      req_Address = None, req_Port = 0,
      req_Option = (if flag then Set_flag 0 RequestOptionOneTimeAuth else 0)\<rparr>"
  let ?br = "r\<lparr>pending := rest\<rparr>"
  have hd: "ReadTCPSession ota user rd = read_request ota account iv ?request1 [b0] ?br"
    unfolding ReadTCPSession_header [OF assms(1-4)] Let_def
    using assms(8,9,10) by auto
  note rr = read_request_other [OF assms(5-7), of ota account iv ?request1 ?br]
  have opt: "Has (req_Option ?request1) RequestOptionOneTimeAuth = flag"
    using Has_flag_set Has_flag_clear by simp
  have a: "isl (ReadTCPSession ota user rd)"
    unfolding hd by (rule read_request_other_fails [OF assms(5-7)])
  have b: "ReadTCPSession ota user rd
            = Inl (NewError ''failed to read port''
                     (Some (if final r = EOF \<and> rest \<noteq> [] then ErrUnexpectedEOF else final r)))"
    if "length rest < 2"
    unfolding hd rr using that by (simp add: ReadFull_def)
  have port: "ReadFull ?br 2 = (Inr [p1, p2], r\<lparr>pending := rest2\<rparr>)"
    if "rest = p1 # p2 # rest2" for rest2
    using that by (simp add: ReadFull_def)
  have c: "ReadTCPSession ota user rd = Inl (NewError ''invalid remote address.'' None)"
    if "rest = p1 # p2 # rest2" "\<not> flag"
    unfolding hd rr port [OF that(1)] opt using that(2) by simp
  have d: "ReadTCPSession ota user rd
            = Inl (NewError ''Failed to read OTA''
                     (Some (if final r = EOF \<and> rest2 \<noteq> [] then ErrUnexpectedEOF else final r)))"
    if "rest = p1 # p2 # rest2" "flag" "length rest2 < AuthSize ota"
    unfolding hd rr port [OF that(1)] opt using that(2,3) by (simp add: ReadFull_def)
  have mac: "ReadFull (r\<lparr>pending := mac @ rest3\<rparr>) (AuthSize ota)
      = (Inr mac, r\<lparr>pending := rest3\<rparr>)"
    if "length mac = AuthSize ota"
    using that by (simp add: ReadFull_def)
  have bf: "BytesFrom (([b0] @ [p1, p2]) @ mac) (- int (AuthSize ota)) = mac"
    if "length mac = AuthSize ota" "mac \<noteq> []"
    using BytesFrom_suffix [OF that(2), of "[b0] @ [p1, p2]"] that(1) by simp
  have e: "ReadTCPSession ota user rd = Inl (NewError ''invalid OTA'' None)"
    if "rest = p1 # p2 # mac @ rest3" "flag" "length mac = AuthSize ota" "mac \<noteq> []"
       "mac \<noteq> HeaderAuth ota (Key account) iv [b0, p1, p2]"
    unfolding hd rr port [OF that(1)] opt prod.case sum.case mac [OF that(3)] bf [OF that(3,4)]
    using that(2,5) by auto
  have f: "ReadTCPSession ota user rd = Inl (NewError ''invalid remote address.'' None)"
    if "rest = p1 # p2 # mac @ rest3" "flag" "length mac = AuthSize ota" "mac \<noteq> []"
       "mac = HeaderAuth ota (Key account) iv [b0, p1, p2]"
    unfolding hd rr port [OF that(1)] opt prod.case sum.case mac [OF that(3)] bf [OF that(3,4)]
    using that(2,5) by auto
  from a b c d e f show ?thesis by blast
qed

theorem ReadTCPSession_invalid_address_type_witness:
  "let ota = \<lparr>AuthSize = 2, HeaderAuth = (\<lambda>key iv data. [0xA0, 0xA1])\<rparr>;
       u = \<lparr>Email = ''u'',
            Account = Inr \<lparr>Cipher = \<lparr>IVSize = 2, IsAEAD = False,
                                     NewDecryptionReader = (\<lambda>key iv rd. Inr rd),
                                     DecodePacket = (\<lambda>key b. Inr b)\<rparr>,
                           Key = [7], OneTimeAuth = Account_Auto\<rparr>\<rparr>;
       rd = (\<lambda>bs. \<lparr>pending = 9 # 9 # bs, final = EOF\<rparr>)
   in ReadTCPSession ota u (rd [0x15, 0, 80, 0xA0, 0xA1, 1, 2, 3])
        = Inl (NewError ''invalid remote address.'' None)
      \<and> ReadTCPSession ota u (rd [0x15, 0, 80, 0xFF, 0xA1, 1, 2, 3])
        = Inl (NewError ''invalid OTA'' None)
      \<and> ReadTCPSession ota u (rd [0x15, 0, 80, 0xA0])
        = Inl (NewError ''Failed to read OTA'' (Some ErrUnexpectedEOF))
      \<and> ReadTCPSession ota u (rd [0x15, 0])
        = Inl (NewError ''failed to read port'' (Some ErrUnexpectedEOF))
      \<and> ReadTCPSession ota u (rd [0x05, 0, 80, 1, 2, 3])
        = Inl (NewError ''invalid remote address.'' None)"
proof -
  define acc :: MemoryAccount where
    "acc = \<lparr>Cipher = \<lparr>IVSize = 2, IsAEAD = False,
                      NewDecryptionReader = (\<lambda>key iv rd. Inr rd),
                      DecodePacket = (\<lambda>key b. Inr b)\<rparr>,
            Key = [7], OneTimeAuth = Account_Auto\<rparr>"
  define u :: User where "u = \<lparr>Email = ''u'', Account = Inr acc\<rparr>"
  define ota :: OneTimeAuth_params where
    "ota = \<lparr>AuthSize = 2, HeaderAuth = (\<lambda>key iv data. [0xA0, 0xA1])\<rparr>"
  define rd :: "byte list \<Rightarrow> io_Reader" where
    "rd = (\<lambda>bs. \<lparr>pending = 9 # 9 # bs, final = EOF\<rparr>)"
  define r :: "byte list \<Rightarrow> io_Reader" where
    "r = (\<lambda>bs. \<lparr>pending = bs, final = EOF\<rparr>)"
  have h: "Account u = Inr acc"
    "(if IVSize (Cipher acc) > 0 then ReadFull (rd (b0 # rest)) (IVSize (Cipher acc))
      else (Inr [], rd (b0 # rest))) = (Inr [9, 9], r (b0 # rest))"
    "NewDecryptionReader (Cipher acc) (Key acc) [9, 9] (r (b0 # rest)) = Inr (r (b0 # rest))"
    "pending (r (b0 # rest)) = b0 # rest"
    for b0 rest
    by (simp_all add: u_def acc_def rd_def r_def ReadFull_def)
  have t: "(0x15 :: byte) AND 0x0F \<noteq> 1" "(0x15 :: byte) AND 0x0F \<noteq> 3" "(0x15 :: byte) AND 0x0F \<noteq> 4"
    "True = (\<not> IsAEAD (Cipher acc) \<and> (0x15 :: byte) AND 0x10 = 0x10)"
    "\<not> (True \<and> OneTimeAuth acc = Account_Disabled)"
    "\<not> (\<not> IsAEAD (Cipher acc) \<and> \<not> True \<and> OneTimeAuth acc = Account_Enabled)"
    by (simp_all add: acc_def)
  have f: "(0x05 :: byte) AND 0x0F \<noteq> 1" "(0x05 :: byte) AND 0x0F \<noteq> 3" "(0x05 :: byte) AND 0x0F \<noteq> 4"
    "False = (\<not> IsAEAD (Cipher acc) \<and> (0x05 :: byte) AND 0x10 = 0x10)"
    "\<not> (False \<and> OneTimeAuth acc = Account_Disabled)"
    "\<not> (\<not> IsAEAD (Cipher acc) \<and> \<not> False \<and> OneTimeAuth acc = Account_Enabled)"
    by (simp_all add: acc_def)
  have m: "[0, 80, m, 0xA1, 1, 2, 3] = 0 # 80 # [m, 0xA1] @ [1, 2, 3 :: byte]"
    "length [m, 0xA1 :: byte] = AuthSize ota" "[m, 0xA1 :: byte] \<noteq> []"
    "([m, 0xA1 :: byte] = HeaderAuth ota (Key acc) [9, 9] [0x15, 0, 80]) = (m = 0xA0)"
    for m
    by (simp_all add: ota_def)
  note wt = ReadTCPSession_invalid_address_type [OF h t, where ota = ota]
  note wf = ReadTCPSession_invalid_address_type [OF h f, where ota = ota]
  have a: "ReadTCPSession ota u (rd [0x15, 0, 80, 0xA0, 0xA1, 1, 2, 3])
      = Inl (NewError ''invalid remote address.'' None)"
    using wt [where rest = "[0, 80, 0xA0, 0xA1, 1, 2, 3]" and ?p1.0 = 0 and ?p2.0 = 80
        and mac = "[0xA0, 0xA1]" and ?rest3.0 = "[1, 2, 3]"] m [of "0xA0"]
    by blast
  have "(0xFF :: byte) \<noteq> 0xA0" by simp
  then have b: "ReadTCPSession ota u (rd [0x15, 0, 80, 0xFF, 0xA1, 1, 2, 3])
      = Inl (NewError ''invalid OTA'' None)"
    using wt [where rest = "[0, 80, 0xFF, 0xA1, 1, 2, 3]" and ?p1.0 = 0 and ?p2.0 = 80
        and mac = "[0xFF, 0xA1]" and ?rest3.0 = "[1, 2, 3]"] m [of "0xFF"]
    by blast
  have c: "ReadTCPSession ota u (rd [0x15, 0, 80, 0xA0])
      = Inl (NewError ''Failed to read OTA'' (Some ErrUnexpectedEOF))"
    using wt [where rest = "[0, 80, 0xA0]" and ?p1.0 = 0 and ?p2.0 = 80 and ?rest2.0 = "[0xA0]"]
    by (simp add: ota_def r_def)
  have d: "ReadTCPSession ota u (rd [0x15, 0])
      = Inl (NewError ''failed to read port'' (Some ErrUnexpectedEOF))"
    using wt [where rest = "[0]"] by (simp add: r_def)
  have e: "ReadTCPSession ota u (rd [0x05, 0, 80, 1, 2, 3])
      = Inl (NewError ''invalid remote address.'' None)"
    using wf [where rest = "[0, 80, 1, 2, 3]" and ?p1.0 = 0 and ?p2.0 = 80
        and ?rest2.0 = "[1, 2, 3]"]
    by simp
  from a b c d e show ?thesis
    unfolding Let_def ota_def [symmetric] acc_def [symmetric] u_def [symmetric] rd_def [symmetric]
    by simp
qed

end
